theory Spec2Isabelle
  imports Main "HOL-Library.Word"
begin

unbundle bit_operations_syntax

section \<open>Errors and results\<close>

text \<open>
  The development follows the two Go implementations of the QUIC serial protocol of the
  configurator: \<^verbatim>\<open>pkg/protocol/quic/protocol.go\<close> (a session object over an
  \<^verbatim>\<open>io.ReadWriter\<close>) and \<^verbatim>\<open>pkg/controller/quic.go\<close> (a reader goroutine and
  callers that meet on channels).

  Errors that come from outside the package (the standard library, the transport, the
  cbor library) are values of \<open>ext_error\<close>; the package's own error variables and the
  errors it builds with \<^verbatim>\<open>errors.New\<close> and \<^verbatim>\<open>fmt.Errorf\<close> are the other constructors of
  \<open>error\<close>. The unexported \<^verbatim>\<open>errUpdatePacket\<close> can therefore not be produced by a
  transport or a decoder.
\<close>

type_synonym byte = "8 word"

datatype ext_error = io_EOF | io_ErrShortWrite | io_ErrNoProgress | Other nat

datatype error =
    Ext ext_error
  | ErrShortWrite
  | ErrShortRead
  | ErrInvalidMagic
  | ErrInvalidCommand
  | errUpdatePacket
  | ErrorsNew string
  | TagMismatch nat nat

text \<open>
  A Go call that returns \<^verbatim>\<open>(v, nil)\<close> is \<open>Inr v\<close>, one that returns \<^verbatim>\<open>(nil, err)\<close> is
  \<open>Inl (Err err)\<close>; \<open>Panic\<close> is a run-time panic and \<open>Fatal\<close> the process exit of
  \<^verbatim>\<open>log.Fatal\<close>. A call that never returns (a loop that spins, a goroutine blocked
  for good) is the value \<open>None\<close> of the surrounding option type.
\<close>

datatype failure = Err error | Panic string | Fatal

type_synonym 'a result = "failure + 'a"

section \<open>The transport\<close>

text \<open>
  The \<^verbatim>\<open>io.ReadWriter\<close> of a session is a script of what its next calls of \<^verbatim>\<open>Read\<close>
  will see: \<open>Data bs\<close> are bytes that have arrived (a \<^verbatim>\<open>Read\<close> takes as many as its
  buffer holds and leaves the rest, \<open>Data []\<close> is a read of no bytes and no error),
  \<open>Fault e\<close> is a call that returns \<^verbatim>\<open>(0, e)\<close>. A script that has run out is a stream
  at its end: every further \<^verbatim>\<open>Read\<close> returns \<^verbatim>\<open>io.EOF\<close>. A \<^verbatim>\<open>Write\<close> follows the
  script \<open>wr\<close> in the same way and, once that has run out, accepts everything.
\<close>

datatype rd_event = Data "byte list" | Fault ext_error

datatype wr_event = Accept nat | Refuse ext_error

record transport =
  rd :: "rd_event list"
  wr :: "wr_event list"
  sent :: "byte list"

definition rw_Read :: "nat \<Rightarrow> transport \<Rightarrow> (byte list \<times> ext_error option) \<times> transport" where
  "rw_Read n t =
     (case rd t of
        [] \<Rightarrow> (([], Some io_EOF), t)
      | Fault e # es \<Rightarrow> (([], Some e), t\<lparr>rd := es\<rparr>)
      | Data bs # es \<Rightarrow>
          ((take n bs, None),
           t\<lparr>rd := (if length bs \<le> n then es else Data (drop n bs) # es)\<rparr>))"

definition rw_Write :: "byte list \<Rightarrow> transport \<Rightarrow> (nat \<times> ext_error option) \<times> transport" where
  "rw_Write bs t =
     (case wr t of
        [] \<Rightarrow> ((length bs, None), t\<lparr>sent := sent t @ bs\<rparr>)
      | Refuse e # ws \<Rightarrow> ((0, Some e), t\<lparr>wr := ws\<rparr>)
      | Accept m # ws \<Rightarrow>
          ((min m (length bs), None), t\<lparr>wr := ws, sent := sent t @ take m bs\<rparr>))"

section \<open>Package quic: what the sources leave open\<close>

text \<open>
  \<^verbatim>\<open>protocol.go\<close> uses declarations of its package that are not among the sources (the
  command and flag enumerations with their \<^verbatim>\<open>QuicCmdMax\<close> sentinel, \<^verbatim>\<open>quicHeaderLen\<close>,
  \<^verbatim>\<open>TargetInfo\<close>), the helper \<^verbatim>\<open>util.ReadAtLeast\<close> and the cbor library. They are the
  fields of an environment that every function of the model takes; nothing is assumed
  about them. A cbor decoder is a function of the bytes its reader still holds.
\<close>

type_synonym QuicCommand = byte

type_synonym QuicValue = nat

record TargetInfo =
  QuicProtocolVersion :: nat

record 'v env =
  QuicCmdInvalid :: QuicCommand
  QuicCmdGet :: QuicCommand
  QuicCmdSet :: QuicCommand
  QuicCmdLog :: QuicCommand
  QuicCmdBlackbox :: QuicCommand
  QuicCmdMax :: QuicCommand
  QuicFlagError :: byte
  QuicFlagStreaming :: byte
  QuicFlagExit :: byte
  quicHeaderLen :: "16 word"
  ReadAtLeast :: "transport \<Rightarrow> nat \<Rightarrow> ((ext_error + byte list) \<times> transport) option"
  decode_string :: "byte list \<Rightarrow> ext_error + string"
  decode_interface :: "byte list \<Rightarrow> ext_error option"
  decode_QuicValue :: "byte list \<Rightarrow> ext_error + QuicValue"
  encode_QuicValue :: "QuicValue \<Rightarrow> ext_error + byte list"
  decode_v :: "byte list \<Rightarrow> ext_error + 'v"
  encode_v :: "'v \<Rightarrow> ext_error + byte list"

record QuicPacket =
  cmd :: QuicCommand
  flag :: byte
  len :: "16 word"
  Payload :: "byte list"

text \<open>
  The session. \<open>Log\<close> is the channel of capacity 100 with the lines it holds, and
  \<open>Log_closed\<close> whether \<^verbatim>\<open>close\<close> has been called on it.
\<close>

record QuicProtocol =
  Log :: "string list"
  Log_closed :: bool
  info :: "TargetInfo option"
  rw :: transport

definition NewQuicProtocol :: "transport \<Rightarrow> QuicProtocol" where
  "NewQuicProtocol t = \<lparr>Log = [], Log_closed = False, info = None, rw = t\<rparr>"

section \<open>protocol.go: reading\<close>

text \<open>\<^verbatim>\<open>Close\<close>: closing a channel that is closed panics.\<close>

definition Close :: "QuicProtocol \<Rightarrow> unit result \<times> QuicProtocol" where
  "Close proto =
     (if Log_closed proto then (Inl (Panic ''close of closed channel''), proto)
      else (Inr (), proto\<lparr>Log_closed := True\<rparr>))"

text \<open>The loop of \<^verbatim>\<open>readHeader\<close> that waits for the magic byte.\<close>

partial_function (option) readMagic :: "transport \<Rightarrow> (unit result \<times> transport) option" where
  "readMagic t =
     (let ((magic, err), t') = rw_Read 1 t in
      case err of
        Some e \<Rightarrow> Some (Inl (Err (Ext e)), t')
      | None \<Rightarrow>
          (case magic of
             [] \<Rightarrow> readMagic t'
           | b # _ \<Rightarrow>
               if b = 0x23 then Some (Inr (), t') else Some (Inl (Err ErrInvalidMagic), t')))"

declare readMagic.simps [code]

definition readHeader :: "'v env \<Rightarrow> transport \<Rightarrow> (QuicPacket result \<times> transport) option" where
  "readHeader E t =
     (case readMagic t of
        None \<Rightarrow> None
      | Some (Inl f, t') \<Rightarrow> Some (Inl f, t')
      | Some (Inr _, t') \<Rightarrow>
          (case ReadAtLeast E t' (unat (quicHeaderLen E - 1)) of
             None \<Rightarrow> None
           | Some (Inl e, t'') \<Rightarrow> Some (Inl (Err (Ext e)), t'')
           | Some (Inr header, t'') \<Rightarrow>
               if length header < 3 then Some (Inl (Panic ''index out of range''), t'')
               else Some (Inr \<lparr>cmd = (header ! 0) AND (drop_bit 3 0xff),
                                flag = drop_bit 5 (header ! 0),
                                len = push_bit 8 (ucast (header ! 1)) OR ucast (header ! 2),
                                Payload = []\<rparr>, t'')))"

text \<open>
  \<^verbatim>\<open>io.CopyN(b, proto.rw, n)\<close> into a \<^verbatim>\<open>bytes.Buffer\<close>: the buffer reads from the limited
  reader until that is exhausted (\<open>n = 0\<close>: all bytes were copied, no error), the
  transport signals the end of the stream (fewer than \<open>n\<close> bytes: \<^verbatim>\<open>io.EOF\<close>) or fails.
  The result is the number of bytes copied, the error, the buffer and the transport.
  The buffer offers the transport at least the bytes still wanted; with the script
  above the size of a single read does not change what is copied.
\<close>

partial_function (option) CopyN_buf ::
  "byte list \<Rightarrow> nat \<Rightarrow> nat \<Rightarrow> transport \<Rightarrow> ((nat \<times> error option) \<times> byte list \<times> transport) option"
where
  "CopyN_buf b written n t =
     (if n = 0 then Some ((written, None), b, t)
      else
        let ((bs, err), t') = rw_Read n t in
        case err of
          Some e \<Rightarrow> Some ((written, Some (Ext e)), b, t')
        | None \<Rightarrow> CopyN_buf (b @ bs) (written + length bs) (n - length bs) t')"

declare CopyN_buf.simps [code]

text \<open>The payload loop of \<^verbatim>\<open>readPacket\<close> for a packet that is not streaming.\<close>

partial_function (option) readFull ::
  "nat \<Rightarrow> byte list \<Rightarrow> transport \<Rightarrow> (byte list result \<times> transport) option"
where
  "readFull plen b t =
     (if length b = plen then Some (Inr b, t)
      else
        case CopyN_buf b 0 (plen - length b) t of
          None \<Rightarrow> None
        | Some ((n, err), b', t') \<Rightarrow>
            (case err of
               Some e \<Rightarrow>
                 if e = Ext io_EOF then readFull plen b' t' else Some (Inl (Err e), t')
             | None \<Rightarrow>
                 if n = 0 then Some (Inl (Err ErrShortRead), t') else readFull plen b' t'))"

declare readFull.simps [code]

text \<open>
  \<^verbatim>\<open>io.CopyN(bw, proto.rw, n)\<close> into the \<^verbatim>\<open>bufio.Writer\<close> on the write end of the
  \<^verbatim>\<open>io.Pipe\<close>. \<open>bw\<close> is what the writer has buffered (its buffer holds 4096 bytes).
  When the buffer is full the writer flushes it into the pipe; a write to an
  \<^verbatim>\<open>io.Pipe\<close> returns only when a reader has taken the bytes, and the read end is still
  a local variable of \<^verbatim>\<open>readPacket\<close>, so that call never returns. After 100 reads in a
  row of no bytes and no error the writer gives up with \<^verbatim>\<open>io.ErrNoProgress\<close>
  (\<open>idle\<close> counts them).
\<close>

partial_function (option) CopyN_bw ::
  "byte list \<Rightarrow> nat \<Rightarrow> nat \<Rightarrow> transport \<Rightarrow> (error option \<times> byte list \<times> transport) option"
where
  "CopyN_bw bw idle n t =
     (if length bw = 4096 then None
      else if n = 0 then Some (None, bw, t)
      else
        let ((bs, err), t') = rw_Read (min (4096 - length bw) n) t in
        case err of
          Some e \<Rightarrow> Some (Some (Ext e), bw, t')
        | None \<Rightarrow>
            if bs = [] then
              (if idle + 1 = 100 then Some (Some (Ext io_ErrNoProgress), bw, t')
               else CopyN_bw bw (idle + 1) n t')
            else CopyN_bw (bw @ bs) 0 (n - length bs) t')"

declare CopyN_bw.simps [code]

text \<open>
  Lines 110--132: the payload of the first frame. For a streaming packet \<^verbatim>\<open>p.Payload\<close>
  is the read end of the pipe and the bytes are in \<open>bw\<close>; otherwise \<^verbatim>\<open>p.Payload\<close> is
  the buffer that was filled.
\<close>

definition readBody ::
  "'v env \<Rightarrow> QuicPacket \<Rightarrow> transport \<Rightarrow> ((QuicPacket \<times> byte list) result \<times> transport) option"
where
  "readBody E p t =
     (if flag p = QuicFlagStreaming E then
        (case CopyN_bw [] 0 (unat (len p)) t of
           None \<Rightarrow> None
         | Some (Some e, bw, t') \<Rightarrow> Some (Inl (Err e), t')
         | Some (None, bw, t') \<Rightarrow> Some (Inr (p, bw), t'))
      else
        (case readFull (unat (len p)) [] t of
           None \<Rightarrow> None
         | Some (Inl f, t') \<Rightarrow> Some (Inl f, t')
         | Some (Inr b, t') \<Rightarrow> Some (Inr (p\<lparr>Payload := b\<rparr>, []), t')))"

text \<open>
  The \<^verbatim>\<open>Log\<close> case of the switch. A decoder on the read end of the pipe waits for bytes
  that are never flushed. The send on \<^verbatim>\<open>proto.Log\<close> stands in a \<^verbatim>\<open>select\<close> with a
  \<^verbatim>\<open>default\<close>: a full channel drops the line, a closed one panics.
\<close>

definition recvLog :: "'v env \<Rightarrow> QuicPacket \<Rightarrow> QuicProtocol \<Rightarrow> (QuicPacket result \<times> QuicProtocol) option" where
  "recvLog E p proto =
     (if flag p = QuicFlagStreaming E then None
      else
        case decode_string E (Payload p) of
          Inl e \<Rightarrow> Some (Inl (Err (Ext e)), proto)
        | Inr val \<Rightarrow>
            if Log_closed proto then Some (Inl (Panic ''send on closed channel''), proto)
            else if length (Log proto) < 100
              then Some (Inl (Err errUpdatePacket), proto\<lparr>Log := Log proto @ [val]\<rparr>)
              else Some (Inl (Err errUpdatePacket), proto))"

text \<open>The \<^verbatim>\<open>Blackbox\<close> case of the switch.\<close>

definition recvBlackbox :: "'v env \<Rightarrow> QuicPacket \<Rightarrow> QuicProtocol \<Rightarrow> (QuicPacket result \<times> QuicProtocol) option" where
  "recvBlackbox E p proto =
     (if flag p = QuicFlagStreaming E then None
      else
        case decode_interface E (Payload p) of
          Some e \<Rightarrow> Some (Inl (Err errUpdatePacket), proto)
        | None \<Rightarrow> Some (Inl (Err errUpdatePacket), proto))"

text \<open>
  Lines 157--173: the sub-frames of a streaming packet. At the sub-frame of length 0
  the writer is flushed into the pipe, which returns at once only when nothing is
  buffered.
\<close>

partial_function (option) readStream ::
  "'v env \<Rightarrow> byte list \<Rightarrow> transport \<Rightarrow> (unit result \<times> transport) option"
where
  "readStream E bw t =
     (case readHeader E t of
        None \<Rightarrow> None
      | Some (Inl f, t') \<Rightarrow> Some (Inl f, t')
      | Some (Inr h, t') \<Rightarrow>
          if len h = 0 then (if bw = [] then Some (Inr (), t') else None)
          else
            (case CopyN_bw bw 0 (unat (len h)) t' of
               None \<Rightarrow> None
             | Some (Some e, bw', t'') \<Rightarrow> Some (Inl (Err e), t'')
             | Some (None, bw', t'') \<Rightarrow> readStream E bw' t''))"

declare readStream.simps [code]

text \<open>Lines 157--179: what follows the switch.\<close>

definition finishPacket ::
  "'v env \<Rightarrow> QuicPacket \<Rightarrow> byte list \<Rightarrow> QuicProtocol \<Rightarrow> (QuicPacket result \<times> QuicProtocol) option"
where
  "finishPacket E p bw proto =
     (case (if flag p = QuicFlagStreaming E then readStream E bw (rw proto)
            else Some (Inr (), rw proto)) of
        None \<Rightarrow> None
      | Some (Inl f, t) \<Rightarrow> Some (Inl f, proto\<lparr>rw := t\<rparr>)
      | Some (Inr _, t) \<Rightarrow>
          if flag p = QuicFlagExit E then
            (case Close (proto\<lparr>rw := t\<rparr>) of
               (Inl f, proto') \<Rightarrow> Some (Inl f, proto')
             | (Inr _, proto') \<Rightarrow> Some (Inr p, proto'))
          else Some (Inr p, proto\<lparr>rw := t\<rparr>))"

definition readPacket :: "'v env \<Rightarrow> QuicProtocol \<Rightarrow> (QuicPacket result \<times> QuicProtocol) option" where
  "readPacket E proto =
     (case readHeader E (rw proto) of
        None \<Rightarrow> None
      | Some (Inl f, t) \<Rightarrow> Some (Inl f, proto\<lparr>rw := t\<rparr>)
      | Some (Inr p, t) \<Rightarrow>
          if QuicCmdMax E \<le> cmd p \<or> cmd p = QuicCmdInvalid E
          then Some (Inl (Err ErrInvalidCommand), proto\<lparr>rw := t\<rparr>)
          else
            (case readBody E p t of
               None \<Rightarrow> None
             | Some (Inl f, t') \<Rightarrow> Some (Inl f, proto\<lparr>rw := t'\<rparr>)
             | Some (Inr (p', bw), t') \<Rightarrow>
                 if cmd p' = QuicCmdLog E then recvLog E p' (proto\<lparr>rw := t'\<rparr>)
                 else if (case info proto of None \<Rightarrow> True
                          | Some i \<Rightarrow> QuicProtocolVersion i = 1)
                         \<and> cmd p' = QuicCmdBlackbox E
                   then recvBlackbox E p' (proto\<lparr>rw := t'\<rparr>)
                 else finishPacket E p' bw (proto\<lparr>rw := t'\<rparr>)))"

text \<open>\<^verbatim>\<open>read\<close>: packets that \<^verbatim>\<open>readPacket\<close> has consumed itself are skipped.\<close>

partial_function (option) read :: "'v env \<Rightarrow> QuicProtocol \<Rightarrow> (QuicPacket result \<times> QuicProtocol) option" where
  "read E proto =
     (case readPacket E proto of
        None \<Rightarrow> None
      | Some (Inl f, proto') \<Rightarrow>
          if f = Err errUpdatePacket then read E proto' else Some (Inl f, proto')
      | Some (Inr p, proto') \<Rightarrow> Some (Inr p, proto'))"

declare read.simps [code]

section \<open>protocol.go: requests\<close>

text \<open>
  \<^verbatim>\<open>io.Copy(proto.rw, buf)\<close> from a \<^verbatim>\<open>bytes.Buffer\<close>: one \<^verbatim>\<open>Write\<close> of the whole buffer.
  The result is the error and what is left in the buffer, which is reset once
  everything has been written.
\<close>

definition WriteTo :: "byte list \<Rightarrow> transport \<Rightarrow> (error option \<times> byte list) \<times> transport" where
  "WriteTo buf t =
     (let ((m, e), t') = rw_Write buf t in
      case e of
        Some e \<Rightarrow> ((Some (Ext e), drop m buf), t')
      | None \<Rightarrow>
          if m \<noteq> length buf then ((Some (Ext io_ErrShortWrite), drop m buf), t')
          else ((None, []), t'))"

text \<open>The buffer that \<^verbatim>\<open>Send\<close> writes: magic, command, the two length bytes, the data.\<close>

definition Send_buf :: "QuicCommand \<Rightarrow> byte list \<Rightarrow> byte list" where
  "Send_buf c data =
     [0x23, c, of_nat (drop_bit 8 (length data) AND 0xFF), of_nat (length data AND 0xFF)]
     @ data"

definition Send ::
  "'v env \<Rightarrow> QuicCommand \<Rightarrow> byte list \<Rightarrow> QuicProtocol \<Rightarrow> (QuicPacket result \<times> QuicProtocol) option"
where
  "Send E c data proto =
     (let ((err, buf), t) = WriteTo (Send_buf c data) (rw proto) in
      case err of
        Some e \<Rightarrow> Some (Inl (Err e), proto\<lparr>rw := t\<rparr>)
      | None \<Rightarrow>
          if length buf \<noteq> 0 then Some (Inl (Err ErrShortWrite), proto\<lparr>rw := t\<rparr>)
          else
            (case read E (proto\<lparr>rw := t\<rparr>) of
               None \<Rightarrow> None
             | Some (Inl f, proto') \<Rightarrow> Some (Inl f, proto')
             | Some (Inr p, proto') \<Rightarrow>
                 if flag p = QuicFlagError E then
                   (case decode_string E (Payload p) of
                      Inl e \<Rightarrow> Some (Inl (Err (Ext e)), proto')
                    | Inr msg \<Rightarrow> Some (Inl (Err (ErrorsNew msg)), proto'))
                 else Some (Inr p, proto')))"







section \<open>An environment to run the model\<close>

text \<open>
  Modelled from the spec: \<^verbatim>\<open>util.ReadAtLeast\<close> is not among the sources. Here it reads
  until \<open>n\<close> bytes have arrived (the spec's ``short reads are retried until satisfied'')
  and returns the transport's error when it sees one before that. The theorems below
  hold for every environment; this one serves to run the model on byte streams.
\<close>

fun take_bytes :: "nat \<Rightarrow> rd_event list \<Rightarrow> (ext_error + byte list) \<times> rd_event list" where
  "take_bytes 0 es = (Inr [], es)"
| "take_bytes n [] = (Inl io_EOF, [])"
| "take_bytes n (Fault e # es) = (Inl e, es)"
| "take_bytes n (Data bs # es) =
     (if n < length bs then (Inr (take n bs), Data (drop n bs) # es)
      else
        case take_bytes (n - length bs) es of
          (Inl e, es') \<Rightarrow> (Inl e, es')
        | (Inr cs, es') \<Rightarrow> (Inr (bs @ cs), es'))"

definition ReadAtLeast_script ::
  "transport \<Rightarrow> nat \<Rightarrow> ((ext_error + byte list) \<times> transport) option"
where
  "ReadAtLeast_script t n = (case take_bytes n (rd t) of (r, es) \<Rightarrow> Some (r, t\<lparr>rd := es\<rparr>))"

text \<open>
  The cbor library is outside the repository. This instance covers the items whose head
  is one byte (RFC 8949): an unsigned integer below 24 is the byte itself, a text string
  shorter than 24 bytes is the byte \<open>0x60 + n\<close> and its \<open>n\<close> bytes.
\<close>

definition cbor_uint :: "byte list \<Rightarrow> ext_error + nat" where
  "cbor_uint bs =
     (case bs of
        [] \<Rightarrow> Inl io_EOF
      | b # _ \<Rightarrow> if b < 24 then Inr (unat b) else Inl (Other 1))"

definition cbor_text :: "byte list \<Rightarrow> ext_error + string" where
  "cbor_text bs =
     (case bs of
        [] \<Rightarrow> Inl io_EOF
      | b # cs \<Rightarrow>
          if 0x60 \<le> b \<and> b < 0x78 then
            (if unat (b - 0x60) \<le> length cs
             then Inr (map (\<lambda>c. char_of (unat c)) (take (unat (b - 0x60)) cs))
             else Inl (Other 2))
          else Inl (Other 1))"

definition cbor_any :: "byte list \<Rightarrow> ext_error option" where
  "cbor_any bs =
     (case cbor_uint bs of
        Inr _ \<Rightarrow> None
      | Inl _ \<Rightarrow> (case cbor_text bs of Inr _ \<Rightarrow> None | Inl e \<Rightarrow> Some e))"

definition cbor_put_uint :: "nat \<Rightarrow> ext_error + byte list" where
  "cbor_put_uint n = (if n < 24 then Inr [of_nat n] else Inl (Other 3))"

definition env0 :: "nat env" where
  "env0 =
     \<lparr>QuicCmdInvalid = 0, QuicCmdGet = 1, QuicCmdSet = 2, QuicCmdLog = 3,
      QuicCmdBlackbox = 5, QuicCmdMax = 9,
      QuicFlagError = 1, QuicFlagStreaming = 2, QuicFlagExit = 3,
      quicHeaderLen = 4,
      ReadAtLeast = ReadAtLeast_script,
      decode_string = cbor_text, decode_interface = cbor_any,
      decode_QuicValue = cbor_uint, encode_QuicValue = cbor_put_uint,
      decode_v = cbor_uint, encode_v = cbor_put_uint\<rparr>"

definition stream :: "byte list \<Rightarrow> transport" where
  "stream bs = \<lparr>rd = [Data bs], wr = [], sent = []\<rparr>"

section \<open>controller/quic.go\<close>

text \<open>
  The controller declares its own enumerations. Its \<^verbatim>\<open>readAtLeast\<close> method and the cbor
  library (version 1 here) are again fields of an environment: \<open>Decode_typ\<close> is the
  first \<^verbatim>\<open>Decode\<close> of a decoder on the payload and returns what is left for the
  second, \<open>Decode_v\<close>.
\<close>

definition QuicCmdInvalid_ctl :: QuicCommand where "QuicCmdInvalid_ctl = 0"
definition QuicCmdLog_ctl :: QuicCommand where "QuicCmdLog_ctl = 3"
definition QuicCmdCalImu_ctl :: QuicCommand where "QuicCmdCalImu_ctl = 4"
definition QuicCmdBlackbox_ctl :: QuicCommand where "QuicCmdBlackbox_ctl = 5"

definition QuicFlagNone_ctl :: byte where "QuicFlagNone_ctl = 0"
definition QuicFlagError_ctl :: byte where "QuicFlagError_ctl = 1"

definition quicHeaderLen_ctl :: "16 word" where "quicHeaderLen_ctl = 4"

record quicPacket =
  qcmd :: QuicCommand
  qflag :: byte
  qlen :: "16 word"
  payload :: "byte list"

record ('b, 'v) cenv =
  readAtLeast :: "transport \<Rightarrow> nat \<Rightarrow> ((ext_error + byte list) \<times> transport) option"
  Unmarshal_string :: "byte list \<Rightarrow> ext_error + string"
  Unmarshal_Blackbox :: "byte list \<Rightarrow> ext_error + 'b"
  Marshal_typ :: "QuicCommand \<Rightarrow> ext_error + byte list"
  Encode_v :: "'v \<Rightarrow> ext_error + byte list"
  Decode_typ :: "byte list \<Rightarrow> ext_error + (QuicCommand \<times> byte list)"
  Decode_v :: "byte list \<Rightarrow> ext_error + 'v"

text \<open>
  A caller of \<^verbatim>\<open>SendQUIC\<close>: it is not in the call, or it is blocked in the \<^verbatim>\<open>select\<close> on
  the channel of its command and on the timer (with the time at which the timer
  fires), or the call has returned.
\<close>

datatype caller = Idle | Waiting QuicCommand int | Returned "quicPacket result"

text \<open>
  The state the goroutines share: the connection, the frames handed to the writer,
  the two event queues (channels of capacity 100), the commands for which
  \<^verbatim>\<open>quicChannel\<close> holds a channel, the caller and the clock (in nanoseconds).
\<close>

record 'b world =
  conn :: transport
  writeChannel :: "byte list list"
  QuicLog :: "string list"
  QuicBlackbox :: "'b list"
  quicChannel :: "QuicCommand \<Rightarrow> bool"
  caller :: caller
  now :: int

text \<open>
  Lines 139--146: what \<^verbatim>\<open>SendQUIC\<close> does with the packet it receives, and line 148.
\<close>

definition SendQUIC_recv :: "('b, 'v) cenv \<Rightarrow> quicPacket \<Rightarrow> quicPacket result" where
  "SendQUIC_recv C p =
     (if qflag p = QuicFlagError_ctl then
        (case Unmarshal_string C (payload p) of
           Inl e \<Rightarrow> Inl (Err (Ext e))
         | Inr msg \<Rightarrow> Inl (Err (ErrorsNew msg)))
      else Inr p)"

definition SendQUIC_timeout :: "quicPacket result" where
  "SendQUIC_timeout = Inl (Err (ErrorsNew ''quic recive timeout''))"

text \<open>
  The non-blocking send of \<^verbatim>\<open>ReadQUIC\<close> on \<^verbatim>\<open>quicChannel[cmd]\<close>: the channels are
  unbuffered, so the packet is taken when a receiver is blocked on that channel and
  dropped otherwise (also when the map holds no channel for the command).
\<close>

definition offer :: "('b, 'v) cenv \<Rightarrow> quicPacket \<Rightarrow> 'b world \<Rightarrow> 'b world" where
  "offer C p w =
     (case caller w of
        Waiting c deadline \<Rightarrow>
          if c = qcmd p \<and> quicChannel w c then w\<lparr>caller := Returned (SendQUIC_recv C p)\<rparr>
          else w
      | _ \<Rightarrow> w)"

text \<open>
  \<^verbatim>\<open>ReadQUIC\<close>. The sends on \<^verbatim>\<open>QuicLog\<close> and \<^verbatim>\<open>QuicBlackbox\<close> block while the queue is
  full; no consumer of the queues is part of this model.
\<close>

definition ReadQUIC :: "('b, 'v) cenv \<Rightarrow> 'b world \<Rightarrow> (unit result \<times> 'b world) option" where
  "ReadQUIC C w =
     (case readAtLeast C (conn w) (unat (quicHeaderLen_ctl - 1)) of
        None \<Rightarrow> None
      | Some (Inl e, t) \<Rightarrow> Some (Inl (Err (Ext e)), w\<lparr>conn := t\<rparr>)
      | Some (Inr header, t) \<Rightarrow>
          if length header < 3 then Some (Inl (Panic ''index out of range''), w\<lparr>conn := t\<rparr>)
          else
            let cmd = (header ! 0) AND (drop_bit 3 0xff);
                flag = drop_bit 5 (header ! 0);
                payloadLen = push_bit 8 (ucast (header ! 1)) OR ucast (header ! 2)
            in
            (case readAtLeast C t (unat payloadLen) of
               None \<Rightarrow> None
             | Some (Inl e, t') \<Rightarrow> Some (Inl (Err (Ext e)), w\<lparr>conn := t'\<rparr>)
             | Some (Inr payload', t') \<Rightarrow>
                 if length payload' \<noteq> unat payloadLen then Some (Inl Fatal, w\<lparr>conn := t'\<rparr>)
                 else
                   let packet = \<lparr>qcmd = cmd, qflag = flag, qlen = payloadLen, payload = payload'\<rparr>;
                       w' = w\<lparr>conn := t'\<rparr>
                   in
                   if qcmd packet = QuicCmdLog_ctl then
                     (case Unmarshal_string C (payload packet) of
                        Inl e \<Rightarrow> Some (Inl Fatal, w')
                      | Inr val \<Rightarrow>
                          if length (QuicLog w') < 100
                          then Some (Inr (), w'\<lparr>QuicLog := QuicLog w' @ [val]\<rparr>)
                          else None)
                   else if qcmd packet = QuicCmdBlackbox_ctl then
                     (case Unmarshal_Blackbox C (payload packet) of
                        Inl e \<Rightarrow> Some (Inl Fatal, w')
                      | Inr val \<Rightarrow>
                          if length (QuicBlackbox w') < 100
                          then Some (Inr (), w'\<lparr>QuicBlackbox := QuicBlackbox w' @ [val]\<rparr>)
                          else None)
                   else Some (Inr (), offer C packet w')))"


text \<open>
  \<^verbatim>\<open>SendQUIC\<close>, lines 124--135: the frame goes to the writer, the caller enters the
  \<^verbatim>\<open>select\<close> and the timer of one second is started.
\<close>

definition SendQUIC_buf :: "QuicCommand \<Rightarrow> byte list \<Rightarrow> byte list" where
  "SendQUIC_buf c data =
     [0x23, c, of_nat (drop_bit 8 (length data) AND 0xFF), of_nat (length data AND 0xFF)]
     @ data"

definition second :: int where
  "second = 1000000000"

definition SendQUIC_enter :: "QuicCommand \<Rightarrow> byte list \<Rightarrow> 'b world \<Rightarrow> 'b world" where
  "SendQUIC_enter c data w =
     w\<lparr>quicChannel := (quicChannel w)(c := True),
       writeChannel := writeChannel w @ [SendQUIC_buf c data],
       caller := Waiting c (now w + 1 * second)\<rparr>"

text \<open>
  The goroutines interleave: time passes (by \<open>d\<close> nanoseconds, never backwards), the
  reader goroutine runs \<^verbatim>\<open>ReadQUIC\<close> once, or the caller, when it is not blocked in a
  call, calls \<^verbatim>\<open>SendQUIC\<close> again. The timer of \<^verbatim>\<open>time.After\<close> fires when its second
  has passed: the tick that brings the clock to the deadline ends the \<^verbatim>\<open>select\<close> of a
  caller that is still blocked, with the timeout error of line 148. A reader that
  blocks (on the connection, or on a queue that is full) stays blocked and leaves the
  state to the others; a \<^verbatim>\<open>log.Fatal\<close> or a panic of the reader ends the process.
\<close>

datatype event = Tick int | Reader | Call QuicCommand "byte list"


definition step :: "('b, 'v) cenv \<Rightarrow> event \<Rightarrow> 'b world \<Rightarrow> ('b world result) option" where
  "step C ev w =
     (case ev of
        Tick d \<Rightarrow>
          (let w' = w\<lparr>now := now w + max 0 d\<rparr> in
           case caller w of
             Waiting c deadline \<Rightarrow>
               if deadline \<le> now w' then Some (Inr (w'\<lparr>caller := Returned SendQUIC_timeout\<rparr>))
               else Some (Inr w')
           | _ \<Rightarrow> Some (Inr w'))
      | Call c data \<Rightarrow>
          (case caller w of
             Waiting c' deadline \<Rightarrow> Some (Inr w)
           | _ \<Rightarrow> Some (Inr (SendQUIC_enter c data w)))
      | Reader \<Rightarrow>
          (case ReadQUIC C w of
             None \<Rightarrow> Some (Inr w)
           | Some (Inl (Err e), w') \<Rightarrow> Some (Inr w')
           | Some (Inl (Panic s), w') \<Rightarrow> Some (Inl (Panic s))
           | Some (Inl Fatal, w') \<Rightarrow> Some (Inl Fatal)
           | Some (Inr _, w') \<Rightarrow> Some (Inr w')))"


text \<open>
  \<^verbatim>\<open>SendQUIC\<close> as the caller sees it, given how its \<^verbatim>\<open>select\<close> ends, and the two typed
  operations built on it.
\<close>

datatype select = Received quicPacket | TimedOut

definition SendQUIC :: "('b, 'v) cenv \<Rightarrow> QuicCommand \<Rightarrow> byte list \<Rightarrow> select \<Rightarrow> quicPacket result" where
  "SendQUIC C c data sel =
     (case sel of Received p \<Rightarrow> SendQUIC_recv C p | TimedOut \<Rightarrow> SendQUIC_timeout)"



text \<open>An environment and a state to run the controller on byte streams.\<close>

definition cbor_uint_seq :: "byte list \<Rightarrow> ext_error + (QuicCommand \<times> byte list)" where
  "cbor_uint_seq bs =
     (case bs of
        [] \<Rightarrow> Inl io_EOF
      | b # cs \<Rightarrow> if b < 24 then Inr (b, cs) else Inl (Other 1))"

definition cenv0 :: "(nat, nat) cenv" where
  "cenv0 =
     \<lparr>readAtLeast = ReadAtLeast_script,
      Unmarshal_string = cbor_text, Unmarshal_Blackbox = cbor_uint,
      Marshal_typ = (\<lambda>c. cbor_put_uint (unat c)), Encode_v = cbor_put_uint,
      Decode_typ = cbor_uint_seq, Decode_v = cbor_uint\<rparr>"

definition world0 :: "byte list \<Rightarrow> nat world" where
  "world0 bs =
     \<lparr>conn = stream bs, writeChannel = [], QuicLog = [], QuicBlackbox = [],
      quicChannel = (\<lambda>c. False), caller = Idle, now = 0\<rparr>"

section \<open>The payload loop in closed form\<close>

text \<open>
  The functions of this section are not code of the repository. They say, by recursion
  on the script of the transport, what the loops of \<^verbatim>\<open>readPacket\<close> for a packet that
  is not streaming come to; the theorems prove that the loops compute exactly this.

  \<open>CopyN_script n es\<close> is one \<^verbatim>\<open>io.CopyN\<close> of \<open>n\<close> bytes: the error it ends with, the
  bytes it copies and the script it leaves. \<open>payload_script n es\<close> is the whole loop:
  \<open>n\<close> bytes are collected over short reads and over signals of the end of the stream;
  another error of the transport ends the loop; a script that runs out before the
  bytes are there leaves the loop without a result.
\<close>

fun CopyN_script :: "nat \<Rightarrow> rd_event list \<Rightarrow> ext_error option \<times> byte list \<times> rd_event list" where
  "CopyN_script 0 es = (None, [], es)"
| "CopyN_script n [] = (Some io_EOF, [], [])"
| "CopyN_script n (Fault e # es) = (Some e, [], es)"
| "CopyN_script n (Data bs # es) =
     (if n \<le> length bs
      then (None, take n bs, if length bs \<le> n then es else Data (drop n bs) # es)
      else case CopyN_script (n - length bs) es of (e, cs, es') \<Rightarrow> (e, bs @ cs, es'))"

fun payload_script ::
  "nat \<Rightarrow> rd_event list \<Rightarrow> ((ext_error + byte list) \<times> rd_event list) option"
where
  "payload_script 0 es = Some (Inr [], es)"
| "payload_script n [] = None"
| "payload_script n (Fault e # es) =
     (if e = io_EOF then payload_script n es else Some (Inl e, es))"
| "payload_script n (Data bs # es) =
     (if n \<le> length bs
      then Some (Inr (take n bs), if length bs \<le> n then es else Data (drop n bs) # es)
      else case payload_script (n - length bs) es of
             None \<Rightarrow> None
           | Some (Inl e, es') \<Rightarrow> Some (Inl e, es')
           | Some (Inr cs, es') \<Rightarrow> Some (Inr (bs @ cs), es'))"

text \<open>The result of the loop that started with \<open>b\<close> in its buffer on the transport \<open>t\<close>.\<close>

definition loop_result ::
  "byte list \<Rightarrow> transport \<Rightarrow> ((ext_error + byte list) \<times> rd_event list) option \<Rightarrow>
   (byte list result \<times> transport) option"
where
  "loop_result b t r =
     (case r of
        None \<Rightarrow> None
      | Some (Inl e, es) \<Rightarrow> Some (Inl (Err (Ext e)), t\<lparr>rd := es\<rparr>)
      | Some (Inr cs, es) \<Rightarrow> Some (Inr (b @ cs), t\<lparr>rd := es\<rparr>))"

section \<open>The select of a request in closed form\<close>



section \<open>Closing the session\<close>

lemma recvLog_not_Inr: "recvLog E p proto \<noteq> Some (Inr q, s)"
  by (simp add: recvLog_def split: sum.splits)

lemma recvBlackbox_not_Inr: "recvBlackbox E p proto \<noteq> Some (Inr q, s)"
  by (simp add: recvBlackbox_def split: option.splits)

lemma finishPacket_closed:
  assumes "\<not> Log_closed proto"
    and "finishPacket E p bw (proto\<lparr>rw := t\<rparr>) = Some (Inr q, proto')"
    and "flag q = QuicFlagExit E"
  shows "finishPacket E p bw (proto\<lparr>Log_closed := True, rw := t\<rparr>) =
         Some (Inl (Panic ''close of closed channel''), proto')"
  using assms
  by (auto simp: finishPacket_def Close_def split: option.splits sum.splits if_splits prod.splits)

lemma readPacket_closed:
  assumes "\<not> Log_closed proto"
    and "readPacket E proto = Some (Inr p, proto')"
    and "flag p = QuicFlagExit E"
  shows "readPacket E (snd (Close proto)) =
         Some (Inl (Panic ''close of closed channel''), proto')"
proof -
  have cl: "snd (Close proto) = proto\<lparr>Log_closed := True\<rparr>"
    using assms(1) by (simp add: Close_def)
  show ?thesis
    using assms unfolding cl
    by (auto simp: readPacket_def recvLog_not_Inr recvBlackbox_not_Inr finishPacket_closed
        split: option.splits sum.splits if_splits prod.splits)
qed

text \<open>
  C10. \<^verbatim>\<open>Close\<close> is not idempotent. It closes the \<^verbatim>\<open>Log\<close> channel without looking at
  it, so whatever the session, the second of two calls of \<^verbatim>\<open>Close\<close> panics. The same
  holds for the \<^verbatim>\<open>Close\<close> that \<^verbatim>\<open>readPacket\<close> calls for a packet with the Exit flag:
  a stream on which the open session returns such a packet (and closes itself) makes
  the session that the caller has closed before panic.
\<close>

theorem Close_not_idempotent:
  "fst (Close (snd (Close proto))) = Inl (Panic ''close of closed channel'') \<and>
   (\<not> Log_closed proto \<and> readPacket E proto = Some (Inr p, proto') \<and> flag p = QuicFlagExit E
      \<longrightarrow> fst (Close proto) = Inr () \<and>
          readPacket E (snd (Close proto)) =
            Some (Inl (Panic ''close of closed channel''), proto'))"
  using readPacket_closed [of proto E p proto'] by (simp add: Close_def)

theorem Close_not_idempotent_witness:
  "\<not> Log_closed (NewQuicProtocol (stream [0x23, 0x61, 0, 0])) \<and>
   readPacket env0 (NewQuicProtocol (stream [0x23, 0x61, 0, 0])) =
     Some (Inr \<lparr>cmd = 1, flag = 3, len = 0, Payload = []\<rparr>,
           \<lparr>Log = [], Log_closed = True, info = None, rw = \<lparr>rd = [], wr = [], sent = []\<rparr>\<rparr>) \<and>
   flag \<lparr>cmd = 1, flag = 3, len = 0, Payload = []\<rparr> = QuicFlagExit env0 \<and>
   fst (Close (NewQuicProtocol (stream [0x23, 0x61, 0, 0]))) = Inr () \<and>
   readPacket env0 (snd (Close (NewQuicProtocol (stream [0x23, 0x61, 0, 0])))) =
     Some (Inl (Panic ''close of closed channel''),
           \<lparr>Log = [], Log_closed = True, info = None, rw = \<lparr>rd = [], wr = [], sent = []\<rparr>\<rparr>)"
proof -
  have h: "\<not> Log_closed (NewQuicProtocol (stream [0x23, 0x61, 0, 0])) \<and>
     readPacket env0 (NewQuicProtocol (stream [0x23, 0x61, 0, 0])) =
       Some (Inr \<lparr>cmd = 1, flag = 3, len = 0, Payload = []\<rparr>,
             \<lparr>Log = [], Log_closed = True, info = None, rw = \<lparr>rd = [], wr = [], sent = []\<rparr>\<rparr>) \<and>
     flag \<lparr>cmd = 1, flag = 3, len = 0, Payload = []\<rparr> = QuicFlagExit env0"
    by code_simp
  from h Close_not_idempotent [of "NewQuicProtocol (stream [0x23, 0x61, 0, 0])" env0
      "\<lparr>cmd = 1, flag = 3, len = 0, Payload = []\<rparr>"
      "\<lparr>Log = [], Log_closed = True, info = None, rw = \<lparr>rd = [], wr = [], sent = []\<rparr>\<rparr>"]
  show ?thesis by blast
qed

section \<open>The header\<close>

lemma readMagic_skip:
  "readMagic (t\<lparr>rd := replicate k (Data []) @ es\<rparr>) = readMagic (t\<lparr>rd := es\<rparr>)"
proof (induction k)
  case 0
  then show ?case by simp
next
  case (Suc k)
  have "readMagic (t\<lparr>rd := replicate (Suc k) (Data []) @ es\<rparr>) =
        readMagic (t\<lparr>rd := replicate k (Data []) @ es\<rparr>)"
    by (subst readMagic.simps) (simp add: rw_Read_def)
  with Suc.IH show ?case by simp
qed

lemma readMagic_byte:
  "readMagic (t\<lparr>rd := Data (b # bs) # es\<rparr>) =
     Some (if b = 0x23 then Inr () else Inl (Err ErrInvalidMagic),
           t\<lparr>rd := (if bs = [] then es else Data bs # es)\<rparr>)"
  by (subst readMagic.simps) (auto simp: rw_Read_def)

lemma header_cmd: "unat ((h :: byte) AND 0x1f) = unat h mod 32"
proof -
  have "h AND 0x1f = h mod 32"
    using take_bit_eq_mask [of 5 h] take_bit_eq_mod [of 5 h]
    by (simp add: mask_eq_exp_minus_1)
  then show ?thesis by (simp add: unat_mod)
qed

lemma header_flag: "unat (drop_bit 5 (h :: byte)) = unat h div 32"
  by (simp add: drop_bit_eq_div unat_div)

lemma header_len_plus:
  "(push_bit 8 (ucast (h1 :: byte)) OR ucast (h2 :: byte) :: 16 word) =
   push_bit 8 (ucast h1) + ucast h2"
  by (rule disjunctive_add [symmetric]) (auto simp: bit_simps dest: bit_imp_le_length)

lemma header_len:
  "unat (push_bit 8 (ucast (h1 :: byte)) OR ucast (h2 :: byte) :: 16 word) =
   256 * unat h1 + unat h2"
proof -
  have a: "unat h1 < 256" "unat h2 < 256"
    using unsigned_less [of h1, where 'a = nat] unsigned_less [of h2, where 'a = nat]
    by simp_all
  have "(push_bit 8 (ucast h1) + ucast h2 :: 16 word) = of_nat (256 * unat h1 + unat h2)"
    by (simp add: push_bit_eq_mult)
  then have "unat (push_bit 8 (ucast h1) + ucast h2 :: 16 word) =
             (256 * unat h1 + unat h2) mod 65536"
    by (simp only: unat_of_nat) simp
  with a show ?thesis by (simp add: header_len_plus)
qed

text \<open>
  C3, as the claim states it, fails: one byte that is not the magic byte in front of a
  well-formed frame makes \<^verbatim>\<open>readHeader\<close> return \<^verbatim>\<open>ErrInvalidMagic\<close>; the byte is
  consumed and the frame behind it is not read.
\<close>

theorem readHeader_stray_byte:
  "readHeader env0 (stream [0x00, 0x23, 0x01, 0x00, 0x00]) =
     Some (Inl (Err ErrInvalidMagic), \<lparr>rd = [Data [0x23, 0x01, 0x00, 0x00]], wr = [], sent = []\<rparr>)"
  by code_simp

text \<open>
  C3, amended. \<^verbatim>\<open>readHeader\<close> retries reads that return no byte (\<open>k\<close> of them here) and
  looks at the first byte that arrives. When that byte is not the magic byte the result
  is \<^verbatim>\<open>ErrInvalidMagic\<close> and nothing but this byte is consumed. When it is the magic
  byte and \<^verbatim>\<open>ReadAtLeast\<close> delivers the three bytes behind it, the result is the header
  they encode: the command in the low five bits of the first, the flag in its high
  three bits, the length big-endian in the other two.
\<close>

theorem readHeader_first_byte:
  "(b \<noteq> 0x23 \<longrightarrow>
      readHeader E (t\<lparr>rd := replicate k (Data []) @ Data (b # bs) # es\<rparr>) =
        Some (Inl (Err ErrInvalidMagic), t\<lparr>rd := (if bs = [] then es else Data bs # es)\<rparr>)) \<and>
   (b = 0x23 \<and>
    ReadAtLeast E (t\<lparr>rd := (if bs = [] then es else Data bs # es)\<rparr>) (unat (quicHeaderLen E - 1)) =
      Some (Inr [h0, h1, h2], t') \<longrightarrow>
      (\<exists>p. readHeader E (t\<lparr>rd := replicate k (Data []) @ Data (b # bs) # es\<rparr>) = Some (Inr p, t') \<and>
           unat (cmd p) = unat h0 mod 32 \<and> unat (flag p) = unat h0 div 32 \<and>
           unat (len p) = 256 * unat h1 + unat h2 \<and> Payload p = []))"
  by (simp add: readHeader_def readMagic_skip readMagic_byte header_cmd header_flag header_len)

theorem readHeader_first_byte_witness:
  "readHeader env0 ((stream [])\<lparr>rd := replicate 2 (Data []) @ Data (0x24 # [0x41]) # []\<rparr>) =
     Some (Inl (Err ErrInvalidMagic), (stream [])\<lparr>rd := [Data [0x41]]\<rparr>) \<and>
   ReadAtLeast env0 ((stream [])\<lparr>rd := [Data [0x41, 1, 2, 7]]\<rparr>) (unat (quicHeaderLen env0 - 1)) =
     Some (Inr [0x41, 1, 2], (stream [])\<lparr>rd := [Data [7]]\<rparr>) \<and>
   (\<exists>p. readHeader env0 ((stream [])\<lparr>rd := replicate 2 (Data []) @ Data (0x23 # [0x41, 1, 2, 7]) # []\<rparr>) =
          Some (Inr p, (stream [])\<lparr>rd := [Data [7]]\<rparr>) \<and>
        unat (cmd p) = 1 \<and> unat (flag p) = 2 \<and> unat (len p) = 258 \<and> Payload p = [])"
proof -
  have h: "ReadAtLeast env0 ((stream [])\<lparr>rd := [Data [0x41, 1, 2, 7]]\<rparr>) (unat (quicHeaderLen env0 - 1)) =
           Some (Inr [0x41, 1, 2], (stream [])\<lparr>rd := [Data [7]]\<rparr>)"
    by code_simp
  from h readHeader_first_byte [where b = "0x24" and E = env0 and t = "stream []" and k = 2
      and bs = "[0x41]" and es = "[]"]
    readHeader_first_byte [where b = "0x23" and E = env0 and t = "stream []" and k = 2
      and bs = "[0x41, 1, 2, 7]" and es = "[]" and ?h0.0 = "0x41" and ?h1.0 = 1 and ?h2.0 = 2
      and t' = "(stream [])\<lparr>rd := [Data [7]]\<rparr>"]
  show ?thesis by simp
qed

section \<open>Commands out of range\<close>

lemma readPacket_invalid:
  assumes "readHeader E (rw proto) = Some (Inr p, t)"
    and "QuicCmdMax E \<le> cmd p \<or> cmd p = QuicCmdInvalid E"
  shows "readPacket E proto = Some (Inl (Err ErrInvalidCommand), proto\<lparr>rw := t\<rparr>)"
  using assms by (simp add: readPacket_def)

lemma read_invalid:
  assumes "readHeader E (rw proto) = Some (Inr p, t)"
    and "QuicCmdMax E \<le> cmd p \<or> cmd p = QuicCmdInvalid E"
  shows "read E proto = Some (Inl (Err ErrInvalidCommand), proto\<lparr>rw := t\<rparr>)"
  by (subst read.simps) (simp add: readPacket_invalid [OF assms])

lemma readStream_end:
  assumes "readHeader E t = Some (Inr h, t')" and "len h = 0"
  shows "readStream E [] t = Some (Inr (), t')"
  by (subst readStream.simps) (simp add: assms)

lemma ReadQUIC_offers:
  assumes "readAtLeast C (conn w) 3 = Some (Inr hdr, t)" and "3 \<le> length hdr"
    and "readAtLeast C t (unat (push_bit 8 (ucast (hdr ! 1)) OR ucast (hdr ! 2) :: 16 word)) =
           Some (Inr pl, t')"
    and "length pl = unat (push_bit 8 (ucast (hdr ! 1)) OR ucast (hdr ! 2) :: 16 word)"
    and "hdr ! 0 AND 0x1f \<noteq> QuicCmdLog_ctl" and "hdr ! 0 AND 0x1f \<noteq> QuicCmdBlackbox_ctl"
  shows "ReadQUIC C w =
     Some (Inr (), offer C \<lparr>qcmd = hdr ! 0 AND 0x1f, qflag = drop_bit 5 (hdr ! 0),
                              qlen = push_bit 8 (ucast (hdr ! 1)) OR ucast (hdr ! 2), payload = pl\<rparr>
                     (w\<lparr>conn := t'\<rparr>))"
  using assms
  by (auto simp: ReadQUIC_def quicHeaderLen_ctl_def QuicCmdLog_ctl_def QuicCmdBlackbox_ctl_def
      Let_def)

text \<open>
  C4, as the claim states it, fails in both readers. \<^verbatim>\<open>ReadQUIC\<close> of the controller
  does not look at the range of the command: a packet with the command \<^verbatim>\<open>Invalid\<close> is
  offered to the channel of that command, where a caller of \<^verbatim>\<open>SendQUIC\<close> that waits on
  it receives it, and \<^verbatim>\<open>ReadQUIC\<close> returns no error. In \<^verbatim>\<open>protocol.go\<close> the header of a
  sub-frame of a streaming packet is decoded by \<^verbatim>\<open>readHeader\<close> as well (line 158) and
  its command is not looked at: a streaming packet whose closing sub-frame carries
  the command \<^verbatim>\<open>Invalid\<close> is returned to the caller.
\<close>

theorem invalid_command_accepted:
  "map_option (\<lambda>(r, w). (r, caller w))
     (ReadQUIC cenv0 (SendQUIC_enter QuicCmdInvalid_ctl [] (world0 [0, 0, 0]))) =
   Some (Inr (), Returned (Inr \<lparr>qcmd = 0, qflag = 0, qlen = 0, payload = []\<rparr>)) \<and>
   readHeader env0 (stream [0x23, 0, 0, 0]) =
     Some (Inr \<lparr>cmd = 0, flag = 0, len = 0, Payload = []\<rparr>, \<lparr>rd = [], wr = [], sent = []\<rparr>) \<and>
   readPacket env0 (NewQuicProtocol (stream [0x23, 0x41, 0, 0, 0x23, 0, 0, 0])) =
     Some (Inr \<lparr>cmd = 1, flag = 2, len = 0, Payload = []\<rparr>,
           \<lparr>Log = [], Log_closed = False, info = None, rw = \<lparr>rd = [], wr = [], sent = []\<rparr>\<rparr>)"
  by code_simp

text \<open>
  C4, amended. In \<^verbatim>\<open>protocol.go\<close>, when the header that opens a packet (the one that
  \<^verbatim>\<open>readPacket\<close> decodes first) carries the command \<^verbatim>\<open>Invalid\<close> or a command at or above
  \<^verbatim>\<open>QuicCmdMax\<close>, \<^verbatim>\<open>readPacket\<close> returns \<^verbatim>\<open>ErrInvalidCommand\<close> with no more than that
  header consumed and the session otherwise unchanged (nothing is put on the \<^verbatim>\<open>Log\<close>
  queue); \<^verbatim>\<open>read\<close> passes the error on, and so does a \<^verbatim>\<open>Send\<close> that waits for this packet
  as its reply. The header of a sub-frame of a streaming packet is not checked for
  its command: with nothing pending in the buffer of the pipe, a sub-frame of length
  zero ends the packet whatever its command. The controller's \<^verbatim>\<open>ReadQUIC\<close> does not
  check the range at all: every packet that it has read in full and whose command is
  neither Log nor Blackbox is offered on the channel of its command, and \<^verbatim>\<open>ReadQUIC\<close>
  returns \<^verbatim>\<open>nil\<close>; a caller of \<^verbatim>\<open>SendQUIC\<close> that waits on that command receives the
  packet.
\<close>

theorem readPacket_rejects_command:
  "(readHeader E t0 = Some (Inr p, t) \<and> (QuicCmdMax E \<le> cmd p \<or> cmd p = QuicCmdInvalid E) \<longrightarrow>
      readPacket E (proto\<lparr>rw := t0\<rparr>) = Some (Inl (Err ErrInvalidCommand), proto\<lparr>rw := t\<rparr>) \<and>
      read E (proto\<lparr>rw := t0\<rparr>) = Some (Inl (Err ErrInvalidCommand), proto\<lparr>rw := t\<rparr>) \<and>
      (WriteTo (Send_buf c data) (rw proto) = ((None, []), t0) \<longrightarrow>
         Send E c data proto = Some (Inl (Err ErrInvalidCommand), proto\<lparr>rw := t\<rparr>))) \<and>
   (readHeader E t1 = Some (Inr h, t2) \<and> len h = 0 \<longrightarrow>
      readStream E [] t1 = Some (Inr (), t2)) \<and>
   (readAtLeast C (conn w) 3 = Some (Inr hdr, ct) \<and> 3 \<le> length hdr \<and>
    readAtLeast C ct (unat (push_bit 8 (ucast (hdr ! 1)) OR ucast (hdr ! 2) :: 16 word)) =
      Some (Inr pl, ct') \<and>
    length pl = unat (push_bit 8 (ucast (hdr ! 1)) OR ucast (hdr ! 2) :: 16 word) \<and>
    hdr ! 0 AND 0x1f \<noteq> QuicCmdLog_ctl \<and> hdr ! 0 AND 0x1f \<noteq> QuicCmdBlackbox_ctl \<and>
    pkt = \<lparr>qcmd = hdr ! 0 AND 0x1f, qflag = drop_bit 5 (hdr ! 0),
           qlen = push_bit 8 (ucast (hdr ! 1)) OR ucast (hdr ! 2), payload = pl\<rparr> \<longrightarrow>
      ReadQUIC C w = Some (Inr (), offer C pkt (w\<lparr>conn := ct'\<rparr>)) \<and>
      (caller w = Waiting (qcmd pkt) d \<and> quicChannel w (qcmd pkt) \<longrightarrow>
         caller (offer C pkt (w\<lparr>conn := ct'\<rparr>)) = Returned (SendQUIC_recv C pkt)))"
proof -
  have a: "readHeader E t0 = Some (Inr p, t) \<and> (QuicCmdMax E \<le> cmd p \<or> cmd p = QuicCmdInvalid E) \<longrightarrow>
      readPacket E (proto\<lparr>rw := t0\<rparr>) = Some (Inl (Err ErrInvalidCommand), proto\<lparr>rw := t\<rparr>) \<and>
      read E (proto\<lparr>rw := t0\<rparr>) = Some (Inl (Err ErrInvalidCommand), proto\<lparr>rw := t\<rparr>) \<and>
      (WriteTo (Send_buf c data) (rw proto) = ((None, []), t0) \<longrightarrow>
         Send E c data proto = Some (Inl (Err ErrInvalidCommand), proto\<lparr>rw := t\<rparr>))"
    using readPacket_invalid [of E "proto\<lparr>rw := t0\<rparr>" p t] read_invalid [of E "proto\<lparr>rw := t0\<rparr>" p t]
    by (auto simp: Send_def)
  have b: "readHeader E t1 = Some (Inr h, t2) \<and> len h = 0 \<longrightarrow>
      readStream E [] t1 = Some (Inr (), t2)"
    using readStream_end [of E t1 h t2] by blast
  have c: "caller (offer C pkt (w\<lparr>conn := ct'\<rparr>)) = Returned (SendQUIC_recv C pkt)"
    if "caller w = Waiting (qcmd pkt) d" and "quicChannel w (qcmd pkt)"
    using that by (simp add: offer_def)
  from a b c ReadQUIC_offers [of C w hdr ct pl ct'] show ?thesis by blast
qed

theorem readPacket_rejects_command_witness:
  "WriteTo (Send_buf 1 [1]) (rw (NewQuicProtocol (stream [0x23, 0x09, 0, 0]))) =
     ((None, []), \<lparr>rd = [Data [0x23, 0x09, 0, 0]], wr = [], sent = [0x23, 1, 0, 1, 1]\<rparr>) \<and>
   readHeader env0 \<lparr>rd = [Data [0x23, 0x09, 0, 0]], wr = [], sent = [0x23, 1, 0, 1, 1]\<rparr> =
     Some (Inr \<lparr>cmd = 9, flag = 0, len = 0, Payload = []\<rparr>,
           \<lparr>rd = [], wr = [], sent = [0x23, 1, 0, 1, 1]\<rparr>) \<and>
   QuicCmdMax env0 \<le> cmd \<lparr>cmd = 9, flag = 0, len = 0, Payload = []\<rparr> \<and>
   readPacket env0 \<lparr>Log = [], Log_closed = False, info = None,
       rw = \<lparr>rd = [Data [0x23, 0x09, 0, 0]], wr = [], sent = [0x23, 1, 0, 1, 1]\<rparr>\<rparr> =
     Some (Inl (Err ErrInvalidCommand),
           \<lparr>Log = [], Log_closed = False, info = None,
              rw = \<lparr>rd = [], wr = [], sent = [0x23, 1, 0, 1, 1]\<rparr>\<rparr>) \<and>
   Send env0 1 [1] (NewQuicProtocol (stream [0x23, 0x09, 0, 0])) =
     Some (Inl (Err ErrInvalidCommand),
           \<lparr>Log = [], Log_closed = False, info = None,
              rw = \<lparr>rd = [], wr = [], sent = [0x23, 1, 0, 1, 1]\<rparr>\<rparr>) \<and>
   readHeader env0 (stream [0x23, 0x1f, 0, 0]) =
     Some (Inr \<lparr>cmd = 31, flag = 0, len = 0, Payload = []\<rparr>, \<lparr>rd = [], wr = [], sent = []\<rparr>) \<and>
   readStream env0 [] (stream [0x23, 0x1f, 0, 0]) = Some (Inr (), \<lparr>rd = [], wr = [], sent = []\<rparr>) \<and>
   readAtLeast cenv0 (conn (SendQUIC_enter 31 [] (world0 [31, 0, 1, 9]))) 3 =
     Some (Inr [31, 0, 1], stream [9]) \<and>
   caller (SendQUIC_enter 31 [] (world0 [31, 0, 1, 9])) = Waiting 31 1000000000 \<and>
   map_option (\<lambda>(r, w). (r, caller w)) (ReadQUIC cenv0 (SendQUIC_enter 31 [] (world0 [31, 0, 1, 9]))) =
     Some (Inr (), Returned (Inr \<lparr>qcmd = 31, qflag = 0, qlen = 1, payload = [9]\<rparr>))"
proof -
  have h: "WriteTo (Send_buf 1 [1]) (rw (NewQuicProtocol (stream [0x23, 0x09, 0, 0]))) =
       ((None, []), \<lparr>rd = [Data [0x23, 0x09, 0, 0]], wr = [], sent = [0x23, 1, 0, 1, 1]\<rparr>) \<and>
     readHeader env0 \<lparr>rd = [Data [0x23, 0x09, 0, 0]], wr = [], sent = [0x23, 1, 0, 1, 1]\<rparr> =
       Some (Inr \<lparr>cmd = 9, flag = 0, len = 0, Payload = []\<rparr>,
             \<lparr>rd = [], wr = [], sent = [0x23, 1, 0, 1, 1]\<rparr>) \<and>
     QuicCmdMax env0 \<le> cmd \<lparr>cmd = 9, flag = 0, len = 0, Payload = []\<rparr>"
    by code_simp
  have a: "readPacket env0 \<lparr>Log = [], Log_closed = False, info = None,
       rw = \<lparr>rd = [Data [0x23, 0x09, 0, 0]], wr = [], sent = [0x23, 1, 0, 1, 1]\<rparr>\<rparr> =
     Some (Inl (Err ErrInvalidCommand),
           \<lparr>Log = [], Log_closed = False, info = None,
              rw = \<lparr>rd = [], wr = [], sent = [0x23, 1, 0, 1, 1]\<rparr>\<rparr>) \<and>
   Send env0 1 [1] (NewQuicProtocol (stream [0x23, 0x09, 0, 0])) =
     Some (Inl (Err ErrInvalidCommand),
           \<lparr>Log = [], Log_closed = False, info = None,
              rw = \<lparr>rd = [], wr = [], sent = [0x23, 1, 0, 1, 1]\<rparr>\<rparr>)"
    using h readPacket_rejects_command [where E = env0
      and ?t0.0 = "\<lparr>rd = [Data [0x23, 0x09, 0, 0]], wr = [], sent = [0x23, 1, 0, 1, 1]\<rparr>"
      and p = "\<lparr>cmd = 9, flag = 0, len = 0, Payload = []\<rparr>"
      and t = "\<lparr>rd = [], wr = [], sent = [0x23, 1, 0, 1, 1]\<rparr>"
      and proto = "NewQuicProtocol (stream [0x23, 0x09, 0, 0])" and c = 1 and data = "[1]",
      THEN conjunct1]
    by (simp add: NewQuicProtocol_def)
  have s: "readHeader env0 (stream [0x23, 0x1f, 0, 0]) =
     Some (Inr \<lparr>cmd = 31, flag = 0, len = 0, Payload = []\<rparr>, \<lparr>rd = [], wr = [], sent = []\<rparr>)"
    by code_simp
  have b: "readStream env0 [] (stream [0x23, 0x1f, 0, 0]) = Some (Inr (), \<lparr>rd = [], wr = [], sent = []\<rparr>)"
    using s readPacket_rejects_command [where E = env0 and ?t1.0 = "stream [0x23, 0x1f, 0, 0]"
      and h = "\<lparr>cmd = 31, flag = 0, len = 0, Payload = []\<rparr>"
      and ?t2.0 = "\<lparr>rd = [], wr = [], sent = []\<rparr>", THEN conjunct2, THEN conjunct1]
    by simp
  have k: "readAtLeast cenv0 (conn (SendQUIC_enter 31 [] (world0 [31, 0, 1, 9]))) 3 =
       Some (Inr [31, 0, 1], stream [9]) \<and>
     readAtLeast cenv0 (stream [9]) (unat (push_bit 8 (ucast (0 :: byte)) OR ucast (1 :: byte) :: 16 word)) =
       Some (Inr [9], \<lparr>rd = [], wr = [], sent = []\<rparr>) \<and>
     length [9 :: byte] = unat (push_bit 8 (ucast (0 :: byte)) OR ucast (1 :: byte) :: 16 word) \<and>
     (31 :: byte) AND 0x1f \<noteq> QuicCmdLog_ctl \<and> (31 :: byte) AND 0x1f \<noteq> QuicCmdBlackbox_ctl \<and>
     (31 :: byte) AND 0x1f = 31 \<and> drop_bit 5 (31 :: byte) = 0 \<and>
     (push_bit 8 (ucast (0 :: byte)) OR ucast (1 :: byte) :: 16 word) = 1"
    by code_simp
  have w: "caller (SendQUIC_enter 31 [] (world0 [31, 0, 1, 9])) = Waiting 31 1000000000 \<and>
     quicChannel (SendQUIC_enter 31 [] (world0 [31, 0, 1, 9])) 31"
    by (simp add: SendQUIC_enter_def world0_def second_def)
  have r: "SendQUIC_recv cenv0 \<lparr>qcmd = 31, qflag = 0, qlen = 1, payload = [9]\<rparr> =
     Inr \<lparr>qcmd = 31, qflag = 0, qlen = 1, payload = [9]\<rparr>"
    by code_simp
  note T = readPacket_rejects_command [where C = cenv0
      and w = "SendQUIC_enter 31 [] (world0 [31, 0, 1, 9])"
      and hdr = "[31, 0, 1]" and ct = "stream [9]" and pl = "[9]"
      and ct' = "\<lparr>rd = [], wr = [], sent = []\<rparr>" and d = 1000000000
      and pkt = "\<lparr>qcmd = 31, qflag = 0, qlen = 1, payload = [9]\<rparr>",
      THEN conjunct2, THEN conjunct2]
  have c: "map_option (\<lambda>(r, w). (r, caller w)) (ReadQUIC cenv0 (SendQUIC_enter 31 [] (world0 [31, 0, 1, 9]))) =
     Some (Inr (), Returned (Inr \<lparr>qcmd = 31, qflag = 0, qlen = 1, payload = [9]\<rparr>))"
    using k w r T by simp
  from h a s b k w c show ?thesis by simp
qed

section \<open>The length field\<close>








section \<open>Replies with the Error flag\<close>

lemma Send_Error:
  assumes "WriteTo (Send_buf c data) (rw proto) = ((None, []), t)"
    and "read E (proto\<lparr>rw := t\<rparr>) = Some (Inr p, proto')"
    and "flag p = QuicFlagError E"
  shows "Send E c data proto =
           Some (Inl (Err (case decode_string E (Payload p) of
                             Inl e \<Rightarrow> Ext e | Inr msg \<Rightarrow> ErrorsNew msg)), proto')"
  using assms by (simp add: Send_def split: sum.splits)

lemma Send_Inr_flag:
  "Send E c data proto = Some (Inr p, proto') \<Longrightarrow> flag p \<noteq> QuicFlagError E"
  by (auto simp: Send_def split: prod.splits option.splits sum.splits if_splits)

text \<open>
  C2. A reply with the Error flag is never returned as a packet. When \<^verbatim>\<open>Send\<close> has
  written its request and \<^verbatim>\<open>read\<close> delivers a packet with the Error flag, \<^verbatim>\<open>Send\<close>
  returns an error: the one whose message is the string decoded from the payload, or
  the decoder's error when the payload is not a string. No packet that \<^verbatim>\<open>Send\<close> returns
  carries the Error flag. \<^verbatim>\<open>SendQUIC\<close> treats the packet it receives on its channel in
  the same way.
\<close>

theorem Error_flag_is_an_error:
  "(WriteTo (Send_buf c data) (rw proto) = ((None, []), t) \<and>
    read E (proto\<lparr>rw := t\<rparr>) = Some (Inr p, proto') \<and> flag p = QuicFlagError E \<longrightarrow>
      (\<forall>msg. decode_string E (Payload p) = Inr msg \<longrightarrow>
         Send E c data proto = Some (Inl (Err (ErrorsNew msg)), proto')) \<and>
      (\<forall>e. decode_string E (Payload p) = Inl e \<longrightarrow>
         Send E c data proto = Some (Inl (Err (Ext e)), proto'))) \<and>
   (\<forall>q s. Send E c data proto = Some (Inr q, s) \<longrightarrow> flag q \<noteq> QuicFlagError E) \<and>
   (qflag r = QuicFlagError_ctl \<longrightarrow>
      (\<forall>msg. Unmarshal_string C (payload r) = Inr msg \<longrightarrow>
         SendQUIC C c' data' (Received r) = Inl (Err (ErrorsNew msg))) \<and>
      (\<forall>e. Unmarshal_string C (payload r) = Inl e \<longrightarrow>
         SendQUIC C c' data' (Received r) = Inl (Err (Ext e))))"
  using Send_Error [of c data proto t E p proto'] Send_Inr_flag [of E c data proto]
  by (auto simp: SendQUIC_def SendQUIC_recv_def)

theorem Error_flag_is_an_error_witness:
  "WriteTo (Send_buf 2 [4, 0x18, 0x32]) (rw (NewQuicProtocol (stream [0x23, 0x22, 0, 5, 0x64, 0x72, 0x61, 0x74, 0x65]))) =
     ((None, []), \<lparr>rd = [Data [0x23, 0x22, 0, 5, 0x64, 0x72, 0x61, 0x74, 0x65]], wr = [],
                   sent = [0x23, 2, 0, 3, 4, 0x18, 0x32]\<rparr>) \<and>
   read env0 \<lparr>Log = [], Log_closed = False, info = None,
       rw = \<lparr>rd = [Data [0x23, 0x22, 0, 5, 0x64, 0x72, 0x61, 0x74, 0x65]], wr = [],
              sent = [0x23, 2, 0, 3, 4, 0x18, 0x32]\<rparr>\<rparr> =
     Some (Inr \<lparr>cmd = 2, flag = 1, len = 5, Payload = [0x64, 0x72, 0x61, 0x74, 0x65]\<rparr>,
           \<lparr>Log = [], Log_closed = False, info = None,
              rw = \<lparr>rd = [], wr = [], sent = [0x23, 2, 0, 3, 4, 0x18, 0x32]\<rparr>\<rparr>) \<and>
   flag \<lparr>cmd = 2, flag = 1, len = 5, Payload = [0x64, 0x72, 0x61, 0x74, 0x65]\<rparr> = QuicFlagError env0 \<and>
   decode_string env0 [0x64, 0x72, 0x61, 0x74, 0x65] = Inr ''rate'' \<and>
   Send env0 2 [4, 0x18, 0x32] (NewQuicProtocol (stream [0x23, 0x22, 0, 5, 0x64, 0x72, 0x61, 0x74, 0x65])) =
     Some (Inl (Err (ErrorsNew ''rate'')),
           \<lparr>Log = [], Log_closed = False, info = None,
              rw = \<lparr>rd = [], wr = [], sent = [0x23, 2, 0, 3, 4, 0x18, 0x32]\<rparr>\<rparr>) \<and>
   qflag \<lparr>qcmd = 2, qflag = 1, qlen = 5, payload = [0x64, 0x72, 0x61, 0x74, 0x65]\<rparr> = QuicFlagError_ctl \<and>
   SendQUIC cenv0 2 [4, 0x18, 0x32]
      (Received \<lparr>qcmd = 2, qflag = 1, qlen = 5, payload = [0x64, 0x72, 0x61, 0x74, 0x65]\<rparr>) =
     Inl (Err (ErrorsNew ''rate''))"
proof -
  have h: "WriteTo (Send_buf 2 [4, 0x18, 0x32]) (rw (NewQuicProtocol (stream [0x23, 0x22, 0, 5, 0x64, 0x72, 0x61, 0x74, 0x65]))) =
     ((None, []), \<lparr>rd = [Data [0x23, 0x22, 0, 5, 0x64, 0x72, 0x61, 0x74, 0x65]], wr = [],
                   sent = [0x23, 2, 0, 3, 4, 0x18, 0x32]\<rparr>) \<and>
   read env0 \<lparr>Log = [], Log_closed = False, info = None,
       rw = \<lparr>rd = [Data [0x23, 0x22, 0, 5, 0x64, 0x72, 0x61, 0x74, 0x65]], wr = [],
              sent = [0x23, 2, 0, 3, 4, 0x18, 0x32]\<rparr>\<rparr> =
     Some (Inr \<lparr>cmd = 2, flag = 1, len = 5, Payload = [0x64, 0x72, 0x61, 0x74, 0x65]\<rparr>,
           \<lparr>Log = [], Log_closed = False, info = None,
              rw = \<lparr>rd = [], wr = [], sent = [0x23, 2, 0, 3, 4, 0x18, 0x32]\<rparr>\<rparr>) \<and>
   flag \<lparr>cmd = 2, flag = 1, len = 5, Payload = [0x64, 0x72, 0x61, 0x74, 0x65]\<rparr> = QuicFlagError env0 \<and>
   decode_string env0 [0x64, 0x72, 0x61, 0x74, 0x65] = Inr ''rate'' \<and>
   qflag \<lparr>qcmd = 2, qflag = 1, qlen = 5, payload = [0x64, 0x72, 0x61, 0x74, 0x65]\<rparr> = QuicFlagError_ctl \<and>
   Unmarshal_string cenv0 [0x64, 0x72, 0x61, 0x74, 0x65] = Inr ''rate''"
    by code_simp
  from h Error_flag_is_an_error [where c = 2 and data = "[4, 0x18, 0x32]"
      and proto = "NewQuicProtocol (stream [0x23, 0x22, 0, 5, 0x64, 0x72, 0x61, 0x74, 0x65])"
      and t = "\<lparr>rd = [Data [0x23, 0x22, 0, 5, 0x64, 0x72, 0x61, 0x74, 0x65]], wr = [],
                   sent = [0x23, 2, 0, 3, 4, 0x18, 0x32]\<rparr>"
      and E = env0
      and p = "\<lparr>cmd = 2, flag = 1, len = 5, Payload = [0x64, 0x72, 0x61, 0x74, 0x65]\<rparr>"
      and proto' = "\<lparr>Log = [], Log_closed = False, info = None,
              rw = \<lparr>rd = [], wr = [], sent = [0x23, 2, 0, 3, 4, 0x18, 0x32]\<rparr>\<rparr>"
      and r = "\<lparr>qcmd = 2, qflag = 1, qlen = 5, payload = [0x64, 0x72, 0x61, 0x74, 0x65]\<rparr>"
      and C = cenv0 and c' = 2 and data' = "[4, 0x18, 0x32]"]
  show ?thesis by (simp add: NewQuicProtocol_def)
qed

section \<open>The echoed tag\<close>











section \<open>Unsolicited packets that do not decode\<close>

lemma readPacket_Blackbox_dropped:
  assumes "readHeader E (rw proto) = Some (Inr p, t)"
    and "\<not> (QuicCmdMax E \<le> cmd p \<or> cmd p = QuicCmdInvalid E)"
    and "cmd p = QuicCmdBlackbox E" and "cmd p \<noteq> QuicCmdLog E"
    and "info proto = None \<or> map_option QuicProtocolVersion (info proto) = Some 1"
    and "flag p \<noteq> QuicFlagStreaming E"
    and "readFull (unat (len p)) [] t = Some (Inr b, t')"
  shows "readPacket E proto = Some (Inl (Err errUpdatePacket), proto\<lparr>rw := t'\<rparr>)"
  using assms
  by (auto simp: readPacket_def readBody_def recvBlackbox_def split: option.splits)

lemma ReadQUIC_undecodable:
  assumes "readAtLeast C (conn w) 3 = Some (Inr [h0, h1, h2], t)"
    and "readAtLeast C t (unat (push_bit 8 (ucast h1) OR ucast h2 :: 16 word)) = Some (Inr pl, t')"
    and "length pl = unat (push_bit 8 (ucast h1) OR ucast h2 :: 16 word)"
    and "h0 AND 0x1f = QuicCmdLog_ctl \<and> Unmarshal_string C pl = Inl e \<or>
         h0 AND 0x1f = QuicCmdBlackbox_ctl \<and> Unmarshal_Blackbox C pl = Inl e"
  shows "ReadQUIC C w = Some (Inl Fatal, w\<lparr>conn := t'\<rparr>)"
  using assms
  by (auto simp: ReadQUIC_def quicHeaderLen_ctl_def QuicCmdLog_ctl_def QuicCmdBlackbox_ctl_def
      Let_def)

text \<open>
  C9, as the claim states it, fails. In the controller a Log packet whose payload is
  not a string ends the process through \<^verbatim>\<open>log.Fatal\<close>; in \<^verbatim>\<open>protocol.go\<close> the decoder's
  error for such a packet is what \<^verbatim>\<open>read\<close> returns to its caller, and the reply that
  follows on the stream is not read.
\<close>

theorem undecodable_Log_is_not_dropped:
  "map_option fst (ReadQUIC cenv0 (world0 [3, 0, 1, 0xff])) = Some (Inl Fatal) \<and>
   read env0 (NewQuicProtocol (stream [0x23, 3, 0, 1, 0xff, 0x23, 1, 0, 2, 1, 7])) =
     Some (Inl (Err (Ext (Other 1))),
           \<lparr>Log = [], Log_closed = False, info = None,
              rw = \<lparr>rd = [Data [0x23, 1, 0, 2, 1, 7]], wr = [], sent = []\<rparr>\<rparr>)"
  by code_simp

text \<open>
  C9, amended. In \<^verbatim>\<open>protocol.go\<close>, a Blackbox packet that is not streaming, that
  \<^verbatim>\<open>readPacket\<close> takes for an unsolicited one (no device info is cached, or its protocol
  version is 1) and whose payload has been read in full is dropped when the payload
  does not decode: \<^verbatim>\<open>readPacket\<close> returns \<^verbatim>\<open>errUpdatePacket\<close>, and \<^verbatim>\<open>read\<close> goes on with the next packet on a session
  that differs only in the bytes consumed, so the failure is not an error of the read
  path. In the controller, a Log or Blackbox packet whose payload does not decode
  makes \<^verbatim>\<open>ReadQUIC\<close> end the process with \<^verbatim>\<open>log.Fatal\<close>.
\<close>

theorem undecodable_unsolicited:
  "(readHeader E (rw proto) = Some (Inr p, t) \<and>
    \<not> (QuicCmdMax E \<le> cmd p \<or> cmd p = QuicCmdInvalid E) \<and>
    cmd p = QuicCmdBlackbox E \<and> cmd p \<noteq> QuicCmdLog E \<and>
    (info proto = None \<or> map_option QuicProtocolVersion (info proto) = Some 1) \<and>
    flag p \<noteq> QuicFlagStreaming E \<and>
    readFull (unat (len p)) [] t = Some (Inr b, t') \<and> decode_interface E b = Some e \<longrightarrow>
      readPacket E proto = Some (Inl (Err errUpdatePacket), proto\<lparr>rw := t'\<rparr>) \<and>
      read E proto = read E (proto\<lparr>rw := t'\<rparr>)) \<and>
   (readAtLeast C (conn w) 3 = Some (Inr [h0, h1, h2], ct) \<and>
    readAtLeast C ct (unat (push_bit 8 (ucast h1) OR ucast h2 :: 16 word)) = Some (Inr pl, ct') \<and>
    length pl = unat (push_bit 8 (ucast h1) OR ucast h2 :: 16 word) \<and>
    (h0 AND 0x1f = QuicCmdLog_ctl \<and> Unmarshal_string C pl = Inl e' \<or>
     h0 AND 0x1f = QuicCmdBlackbox_ctl \<and> Unmarshal_Blackbox C pl = Inl e') \<longrightarrow>
      ReadQUIC C w = Some (Inl Fatal, w\<lparr>conn := ct'\<rparr>))"
proof -
  have "read E proto = read E (proto\<lparr>rw := t'\<rparr>)"
    if "readPacket E proto = Some (Inl (Err errUpdatePacket), proto\<lparr>rw := t'\<rparr>)"
    using that by (subst read.simps) simp
  then show ?thesis
    using readPacket_Blackbox_dropped [of E proto p t b t']
      ReadQUIC_undecodable [of C w h0 h1 h2 ct pl ct' e']
    by blast
qed

theorem undecodable_unsolicited_witness:
  "readHeader env0 (rw (NewQuicProtocol (stream [0x23, 5, 0, 1, 0xff, 0x23, 1, 0, 2, 1, 7]))) =
     Some (Inr \<lparr>cmd = 5, flag = 0, len = 1, Payload = []\<rparr>,
           \<lparr>rd = [Data [0xff, 0x23, 1, 0, 2, 1, 7]], wr = [], sent = []\<rparr>) \<and>
   readFull (unat (len \<lparr>cmd = 5, flag = 0, len = 1, Payload = []\<rparr>)) []
       \<lparr>rd = [Data [0xff, 0x23, 1, 0, 2, 1, 7]], wr = [], sent = []\<rparr> =
     Some (Inr [0xff], \<lparr>rd = [Data [0x23, 1, 0, 2, 1, 7]], wr = [], sent = []\<rparr>) \<and>
   decode_interface env0 [0xff] = Some (Other 1) \<and>
   readPacket env0 (NewQuicProtocol (stream [0x23, 5, 0, 1, 0xff, 0x23, 1, 0, 2, 1, 7])) =
     Some (Inl (Err errUpdatePacket),
           \<lparr>Log = [], Log_closed = False, info = None,
              rw = \<lparr>rd = [Data [0x23, 1, 0, 2, 1, 7]], wr = [], sent = []\<rparr>\<rparr>) \<and>
   read env0 (NewQuicProtocol (stream [0x23, 5, 0, 1, 0xff, 0x23, 1, 0, 2, 1, 7])) =
     Some (Inr \<lparr>cmd = 1, flag = 0, len = 2, Payload = [1, 7]\<rparr>,
           \<lparr>Log = [], Log_closed = False, info = None, rw = \<lparr>rd = [], wr = [], sent = []\<rparr>\<rparr>) \<and>
   readAtLeast cenv0 (conn (world0 [5, 0, 1, 0xff])) 3 = Some (Inr [5, 0, 1], stream [0xff]) \<and>
   ReadQUIC cenv0 (world0 [5, 0, 1, 0xff]) =
     Some (Inl Fatal, (world0 [5, 0, 1, 0xff])\<lparr>conn := \<lparr>rd = [], wr = [], sent = []\<rparr>\<rparr>)"
proof -
  have h: "readHeader env0 (rw (NewQuicProtocol (stream [0x23, 5, 0, 1, 0xff, 0x23, 1, 0, 2, 1, 7]))) =
     Some (Inr \<lparr>cmd = 5, flag = 0, len = 1, Payload = []\<rparr>,
           \<lparr>rd = [Data [0xff, 0x23, 1, 0, 2, 1, 7]], wr = [], sent = []\<rparr>) \<and>
   \<not> (QuicCmdMax env0 \<le> cmd \<lparr>cmd = 5, flag = 0, len = 1, Payload = []\<rparr> \<or>
      cmd \<lparr>cmd = 5, flag = 0, len = 1, Payload = []\<rparr> = QuicCmdInvalid env0) \<and>
   cmd \<lparr>cmd = 5, flag = 0, len = 1, Payload = []\<rparr> = QuicCmdBlackbox env0 \<and>
   cmd \<lparr>cmd = 5, flag = 0, len = 1, Payload = []\<rparr> \<noteq> QuicCmdLog env0 \<and>
   info (NewQuicProtocol (stream [0x23, 5, 0, 1, 0xff, 0x23, 1, 0, 2, 1, 7])) = None \<and>
   flag \<lparr>cmd = 5, flag = 0, len = 1, Payload = []\<rparr> \<noteq> QuicFlagStreaming env0 \<and>
   readFull (unat (len \<lparr>cmd = 5, flag = 0, len = 1, Payload = []\<rparr>)) []
       \<lparr>rd = [Data [0xff, 0x23, 1, 0, 2, 1, 7]], wr = [], sent = []\<rparr> =
     Some (Inr [0xff], \<lparr>rd = [Data [0x23, 1, 0, 2, 1, 7]], wr = [], sent = []\<rparr>) \<and>
   decode_interface env0 [0xff] = Some (Other 1)"
    by code_simp
  have n: "read env0 (NewQuicProtocol (stream [0x23, 5, 0, 1, 0xff, 0x23, 1, 0, 2, 1, 7])\<lparr>rw :=
             \<lparr>rd = [Data [0x23, 1, 0, 2, 1, 7]], wr = [], sent = []\<rparr>\<rparr>) =
     Some (Inr \<lparr>cmd = 1, flag = 0, len = 2, Payload = [1, 7]\<rparr>,
           \<lparr>Log = [], Log_closed = False, info = None, rw = \<lparr>rd = [], wr = [], sent = []\<rparr>\<rparr>)"
    by code_simp
  have k: "readAtLeast cenv0 (conn (world0 [5, 0, 1, 0xff])) 3 = Some (Inr [5, 0, 1], stream [0xff]) \<and>
     readAtLeast cenv0 (stream [0xff]) (unat (push_bit 8 (ucast (0 :: byte)) OR ucast (1 :: byte) :: 16 word)) =
       Some (Inr [0xff], \<lparr>rd = [], wr = [], sent = []\<rparr>) \<and>
     length [0xff :: byte] = unat (push_bit 8 (ucast (0 :: byte)) OR ucast (1 :: byte) :: 16 word) \<and>
     (5 :: byte) AND 0x1f = QuicCmdBlackbox_ctl \<and> Unmarshal_Blackbox cenv0 [0xff] = Inl (Other 1)"
    by code_simp
  have a: "readPacket env0 (NewQuicProtocol (stream [0x23, 5, 0, 1, 0xff, 0x23, 1, 0, 2, 1, 7])) =
     Some (Inl (Err errUpdatePacket),
           \<lparr>Log = [], Log_closed = False, info = None,
              rw = \<lparr>rd = [Data [0x23, 1, 0, 2, 1, 7]], wr = [], sent = []\<rparr>\<rparr>) \<and>
     read env0 (NewQuicProtocol (stream [0x23, 5, 0, 1, 0xff, 0x23, 1, 0, 2, 1, 7])) =
     Some (Inr \<lparr>cmd = 1, flag = 0, len = 2, Payload = [1, 7]\<rparr>,
           \<lparr>Log = [], Log_closed = False, info = None, rw = \<lparr>rd = [], wr = [], sent = []\<rparr>\<rparr>)"
    using h n undecodable_unsolicited [where E = env0
      and proto = "NewQuicProtocol (stream [0x23, 5, 0, 1, 0xff, 0x23, 1, 0, 2, 1, 7])"
      and p = "\<lparr>cmd = 5, flag = 0, len = 1, Payload = []\<rparr>"
      and t = "\<lparr>rd = [Data [0xff, 0x23, 1, 0, 2, 1, 7]], wr = [], sent = []\<rparr>"
      and b = "[0xff]" and t' = "\<lparr>rd = [Data [0x23, 1, 0, 2, 1, 7]], wr = [], sent = []\<rparr>"
      and e = "Other 1", THEN conjunct1]
    by (simp add: NewQuicProtocol_def)
  have c: "ReadQUIC cenv0 (world0 [5, 0, 1, 0xff]) =
     Some (Inl Fatal, (world0 [5, 0, 1, 0xff])\<lparr>conn := \<lparr>rd = [], wr = [], sent = []\<rparr>\<rparr>)"
    using k undecodable_unsolicited [where C = cenv0 and w = "world0 [5, 0, 1, 0xff]"
      and ?h0.0 = 5 and ?h1.0 = 0 and ?h2.0 = 1 and ct = "stream [0xff]" and pl = "[0xff]"
      and ct' = "\<lparr>rd = [], wr = [], sent = []\<rparr>" and e' = "Other 1", THEN conjunct2]
    by (simp add: QuicCmdBlackbox_ctl_def QuicCmdLog_ctl_def)
  from h k a c show ?thesis by (simp add: QuicCmdBlackbox_ctl_def)
qed

section \<open>The timeout of a request\<close>

























section \<open>The payload loop\<close>

lemma CopyN_buf_script:
  "CopyN_buf b w n t =
     Some (case CopyN_script n (rd t) of
             (e, cs, es') \<Rightarrow> ((w + length cs, map_option Ext e), b @ cs, t\<lparr>rd := es'\<rparr>))"
proof (induction n "rd t" arbitrary: b w t rule: CopyN_script.induct)
  case (1 es)
  then show ?case by (subst CopyN_buf.simps) simp
next
  case (2 n)
  then show ?case
    by (subst CopyN_buf.simps) (simp add: rw_Read_def flip: "2.hyps")
next
  case (3 n e es)
  then show ?case
    by (subst CopyN_buf.simps) (simp add: rw_Read_def flip: "3.hyps")
next
  case (4 n bs es)
  show ?case
  proof (cases "Suc n \<le> length bs")
    case True
    have "CopyN_buf (b @ take (Suc n) bs) (w + length (take (Suc n) bs)) (Suc n - length (take (Suc n) bs))
            (t\<lparr>rd := (if length bs \<le> Suc n then es else Data (drop (Suc n) bs) # es)\<rparr>) =
          Some ((w + Suc n, None), b @ take (Suc n) bs,
                t\<lparr>rd := (if length bs \<le> Suc n then es else Data (drop (Suc n) bs) # es)\<rparr>)"
      using True by (subst CopyN_buf.simps) (simp add: min_def)
    then show ?thesis
      using True "4.hyps"(2) [symmetric]
      by (subst CopyN_buf.simps) (simp add: rw_Read_def min_def)
  next
    case False
    then have l: "length bs \<le> Suc n" "take (Suc n) bs = bs" by simp_all
    have "CopyN_buf (b @ bs) (w + length bs) (Suc n - length bs) (t\<lparr>rd := es\<rparr>) =
          Some (case CopyN_script (Suc n - length bs) es of
             (e, cs, es') \<Rightarrow> ((w + length bs + length cs, map_option Ext e), (b @ bs) @ cs,
                              t\<lparr>rd := es'\<rparr>))"
      using "4.hyps"(1) [OF False, of "t\<lparr>rd := es\<rparr>" "b @ bs" "w + length bs"] by simp
    then show ?thesis
      using False l "4.hyps"(2) [symmetric]
      by (subst CopyN_buf.simps) (simp add: rw_Read_def split: prod.splits)
  qed
qed


lemma readFull_eof_aux:
  assumes "readFull plen b t = Some y"
  shows "rd t = [] \<longrightarrow> length b < plen \<longrightarrow> False"
  apply (rule readFull.raw_induct [OF _ assms])
  apply (subst (asm) CopyN_buf.simps)
  apply (auto simp: rw_Read_def split: if_splits)
  apply (meson not_le_imp_less)
  done

lemma readFull_eof: "rd t = [] \<Longrightarrow> length b < plen \<Longrightarrow> readFull plen b t = None"
  using readFull_eof_aux [of plen b t] by (cases "readFull plen b t") auto

lemma CopyN_script_None:
  "CopyN_script n es = (None, cs, es') \<Longrightarrow>
   length cs = n \<and> payload_script n es = Some (Inr cs, es')"
proof (induction n es arbitrary: cs es' rule: CopyN_script.induct)
  case (1 es)
  then show ?case by simp
next
  case (2 n)
  then show ?case by simp
next
  case (3 n e es)
  then show ?case by simp
next
  case (4 n bs es)
  show ?case
  proof (cases "Suc n \<le> length bs")
    case True
    with "4.prems" show ?thesis by auto
  next
    case False
    obtain e' cs' es'' where r: "CopyN_script (Suc n - length bs) es = (e', cs', es'')"
      by (cases "CopyN_script (Suc n - length bs) es") auto
    with "4.prems" False have e: "e' = None" "cs = bs @ cs'" "es' = es''" by simp_all
    from "4.IH" [OF False, of cs' es''] r e
    have "length cs' = Suc n - length bs"
      and "payload_script (Suc n - length bs) es = Some (Inr cs', es'')" by simp_all
    with False e show ?thesis by simp
  qed
qed

lemma CopyN_script_error:
  "CopyN_script n es = (Some e, cs, es') \<Longrightarrow> e \<noteq> io_EOF \<Longrightarrow>
   payload_script n es = Some (Inl e, es')"
proof (induction n es arbitrary: cs es' rule: CopyN_script.induct)
  case (1 es)
  then show ?case by simp
next
  case (2 n)
  then show ?case by simp
next
  case (3 n e es)
  then show ?case by simp
next
  case (4 n bs es)
  show ?case
  proof (cases "Suc n \<le> length bs")
    case True
    with "4.prems" show ?thesis by auto
  next
    case False
    obtain e' cs' es'' where r: "CopyN_script (Suc n - length bs) es = (e', cs', es'')"
      by (cases "CopyN_script (Suc n - length bs) es") auto
    with "4.prems" False have e: "e' = Some e" "es' = es''" by simp_all
    from "4.IH" [OF False, of cs' es''] r e "4.prems"(2)
    have "payload_script (Suc n - length bs) es = Some (Inl e, es'')" by simp
    with False e show ?thesis by simp
  qed
qed

lemma CopyN_script_EOF:
  "CopyN_script n es = (Some io_EOF, cs, es') \<Longrightarrow>
     length cs < n \<and>
     payload_script n es =
       (case payload_script (n - length cs) es' of
          None \<Rightarrow> None
        | Some (Inl e, es'') \<Rightarrow> Some (Inl e, es'')
        | Some (Inr ds, es'') \<Rightarrow> Some (Inr (cs @ ds), es'')) \<and>
     (es = [] \<and> es' = [] \<and> cs = [] \<or> length es' < length es)"
proof (induction n es arbitrary: cs es' rule: CopyN_script.induct)
  case (1 es)
  then show ?case by simp
next
  case (2 n)
  then show ?case by simp
next
  case (3 n e es)
  then have "e = io_EOF" "cs = []" "es' = es" by simp_all
  then show ?case by (simp split: option.splits sum.splits prod.splits)
next
  case (4 n bs es)
  show ?case
  proof (cases "Suc n \<le> length bs")
    case True
    with "4.prems" show ?thesis by simp
  next
    case False
    obtain e' cs' es'' where r: "CopyN_script (Suc n - length bs) es = (e', cs', es'')"
      by (cases "CopyN_script (Suc n - length bs) es") auto
    with "4.prems" False have e: "e' = Some io_EOF" "cs = bs @ cs'" "es' = es''" by simp_all
    from "4.IH" [OF False, of cs' es''] r e
    have l: "length cs' < Suc n - length bs"
      and p: "payload_script (Suc n - length bs) es =
         (case payload_script (Suc n - length bs - length cs') es'' of
            None \<Rightarrow> None
          | Some (Inl e, es3) \<Rightarrow> Some (Inl e, es3)
          | Some (Inr ds, es3) \<Rightarrow> Some (Inr (cs' @ ds), es3))"
      and d: "es = [] \<and> es'' = [] \<and> cs' = [] \<or> length es'' < length es"
      by simp_all
    from l False have "length cs < Suc n" unfolding e by simp
    moreover have "payload_script (Suc n) (Data bs # es) =
       (case payload_script (Suc n - length cs) es' of
          None \<Rightarrow> None
        | Some (Inl e, es3) \<Rightarrow> Some (Inl e, es3)
        | Some (Inr ds, es3) \<Rightarrow> Some (Inr (cs @ ds), es3))"
      using False unfolding e
      by (simp add: p split: option.splits sum.splits prod.splits)
    moreover from d have "length es' < length (Data bs # es)" unfolding e by auto
    ultimately show ?thesis by simp
  qed
qed

lemma readFull_script:
  "length b \<le> plen \<Longrightarrow> readFull plen b t = loop_result b t (payload_script (plen - length b) (rd t))"
proof (induction "length (rd t)" arbitrary: b t rule: less_induct)
  case less
  show ?case
  proof (cases "length b = plen")
    case True
    then show ?thesis by (subst readFull.simps) (simp add: loop_result_def)
  next
    case False
    with less.prems have n: "0 < plen - length b" by simp
    obtain e cs es' where c: "CopyN_script (plen - length b) (rd t) = (e, cs, es')"
      by (cases "CopyN_script (plen - length b) (rd t)") auto
    show ?thesis
    proof (cases e)
      case None
      with CopyN_script_None c have l: "length cs = plen - length b"
        and f: "payload_script (plen - length b) (rd t) = Some (Inr cs, es')" by blast+
      have "readFull plen (b @ cs) (t\<lparr>rd := es'\<rparr>) = Some (Inr (b @ cs), t\<lparr>rd := es'\<rparr>)"
        using l less.prems by (subst readFull.simps) simp
      then show ?thesis
        using False c None l n
        by (subst readFull.simps) (simp add: CopyN_buf_script f loop_result_def)
    next
      case (Some x)
      show ?thesis
      proof (cases "x = io_EOF")
        case False
        with CopyN_script_error c Some
        have f: "payload_script (plen - length b) (rd t) = Some (Inl x, es')" by blast
        show ?thesis
          using \<open>length b \<noteq> plen\<close> c Some False
          by (subst readFull.simps) (simp add: CopyN_buf_script f loop_result_def)
      next
        case True
        with CopyN_script_EOF c Some have l: "length cs < plen - length b"
          and f: "payload_script (plen - length b) (rd t) =
                    (case payload_script (plen - length b - length cs) es' of
                       None \<Rightarrow> None
                     | Some (Inl e, es'') \<Rightarrow> Some (Inl e, es'')
                     | Some (Inr ds, es'') \<Rightarrow> Some (Inr (cs @ ds), es''))"
          and d: "rd t = [] \<and> es' = [] \<and> cs = [] \<or> length es' < length (rd t)"
          by blast+
        have step: "readFull plen b t = readFull plen (b @ cs) (t\<lparr>rd := es'\<rparr>)"
          using \<open>length b \<noteq> plen\<close> c Some True
          by (subst readFull.simps) (simp add: CopyN_buf_script)
        from d show ?thesis
        proof
          assume "rd t = [] \<and> es' = [] \<and> cs = []"
          then show ?thesis
            using n readFull_eof [of t b plen] by (cases "plen - length b") (simp_all add: loop_result_def)
        next
          assume s: "length es' < length (rd t)"
          have "readFull plen (b @ cs) (t\<lparr>rd := es'\<rparr>) =
                loop_result (b @ cs) (t\<lparr>rd := es'\<rparr>) (payload_script (plen - length (b @ cs)) es')"
            using less.hyps [of "t\<lparr>rd := es'\<rparr>" "b @ cs"] s l by simp
          then show ?thesis
            unfolding step f
            by (auto simp: loop_result_def split: option.splits sum.splits)
        qed
      qed
    qed
  qed
qed

lemma payload_script_length:
  "payload_script n es = Some (Inr cs, es') \<Longrightarrow> length cs = n"
proof (induction n es arbitrary: cs es' rule: payload_script.induct)
  case (1 es)
  then show ?case by simp
next
  case (2 n)
  then show ?case by simp
next
  case (3 n e es)
  then show ?case by (simp split: if_splits)
next
  case (4 n bs es)
  show ?case
  proof (cases "Suc n \<le> length bs")
    case True
    with "4.prems" show ?thesis by auto
  next
    case False
    with "4.prems" obtain ds where p: "payload_script (Suc n - length bs) es = Some (Inr ds, es')"
      and c: "cs = bs @ ds"
      by (auto split: option.splits sum.splits prod.splits)
    from "4.IH" [OF False p] have "length ds = Suc n - length bs" .
    with False c show ?thesis by simp
  qed
qed

text \<open>
  C5, as the claim states it, fails: the loop does not terminate on every transport.
  A header that announces one byte of payload, on a stream that ends behind the
  header: \<^verbatim>\<open>io.CopyN\<close> returns \<^verbatim>\<open>io.EOF\<close>, the loop takes the \<^verbatim>\<open>continue\<close> and asks
  again, for ever. \<^verbatim>\<open>readPacket\<close> does not return, with \<^verbatim>\<open>ErrShortRead\<close> or otherwise.
\<close>

theorem readPacket_spins_at_end_of_stream:
  "readPacket env0 (NewQuicProtocol (stream [0x23, 1, 0, 1])) = None"
proof -
  have h: "readHeader env0 (rw (NewQuicProtocol (stream [0x23, 1, 0, 1]))) =
    Some (Inr \<lparr>cmd = 1, flag = 0, len = 1, Payload = []\<rparr>, \<lparr>rd = [], wr = [], sent = []\<rparr>)"
    by code_simp
  have g: "\<not> (QuicCmdMax env0 \<le> cmd \<lparr>cmd = 1, flag = 0, len = 1, Payload = []\<rparr> \<or>
              cmd \<lparr>cmd = 1, flag = 0, len = 1, Payload = []\<rparr> = QuicCmdInvalid env0)"
    "flag \<lparr>cmd = 1, flag = 0, len = 1, Payload = []\<rparr> \<noteq> QuicFlagStreaming env0"
    by code_simp+
  have f: "readFull (unat (len \<lparr>cmd = 1, flag = 0, len = 1, Payload = []\<rparr>)) []
             \<lparr>rd = [], wr = [], sent = []\<rparr> = None"
    by (rule readFull_eof) simp_all
  show ?thesis
    unfolding readPacket_def h using g f by (simp add: readBody_def)
qed

text \<open>
  C5, amended. The payload loop of \<^verbatim>\<open>readPacket\<close> for a packet that is not streaming
  computes \<open>payload_script\<close>: it retries short reads and signals of the end of the
  stream until exactly \<open>plen\<close> bytes have been accumulated and returns these bytes, and
  it returns an error of the transport other than \<^verbatim>\<open>io.EOF\<close> to the caller. A payload
  it returns has exactly \<open>plen\<close> bytes. It terminates when the transport delivers the
  bytes or such an error; on a transport that stays at the end of the stream before
  that, it does not return.
\<close>

theorem readFull_retries:
  "readFull plen [] t = loop_result [] t (payload_script plen (rd t)) \<and>
   (\<forall>b' t'. readFull plen [] t = Some (Inr b', t') \<longrightarrow> length b' = plen) \<and>
   (rd t = [] \<and> 0 < plen \<longrightarrow> readFull plen [] t = None)"
proof -
  have r: "readFull plen [] t = loop_result [] t (payload_script plen (rd t))"
    using readFull_script [of "[]" plen t] by simp
  moreover have "length b' = plen" if "readFull plen [] t = Some (Inr b', t')" for b' t'
    using that payload_script_length [of plen "rd t" b'] unfolding r
    by (auto simp: loop_result_def split: option.splits sum.splits prod.splits)
  moreover have "readFull plen [] t = None" if "rd t = [] \<and> 0 < plen"
    using that by (simp add: readFull_eof)
  ultimately show ?thesis by blast
qed

theorem readFull_retries_witness:
  "readFull 3 [] \<lparr>rd = [Data [1], Fault io_EOF, Data [], Data [2, 3, 4]], wr = [], sent = []\<rparr> =
     Some (Inr [1, 2, 3], \<lparr>rd = [Data [4]], wr = [], sent = []\<rparr>) \<and>
   length [1, 2, 3 :: byte] = 3 \<and>
   readFull 3 [] \<lparr>rd = [Data [1], Fault (Other 5), Data [2, 3, 4]], wr = [], sent = []\<rparr> =
     Some (Inl (Err (Ext (Other 5))), \<lparr>rd = [Data [2, 3, 4]], wr = [], sent = []\<rparr>) \<and>
   rd \<lparr>rd = [], wr = [], sent = []\<rparr> = [] \<and> (0 :: nat) < 3 \<and>
   readFull 3 [] \<lparr>rd = [], wr = [], sent = []\<rparr> = None"
proof -
  have a: "loop_result [] \<lparr>rd = [Data [1], Fault io_EOF, Data [], Data [2, 3, 4]], wr = [], sent = []\<rparr>
       (payload_script 3 (rd \<lparr>rd = [Data [1], Fault io_EOF, Data [], Data [2, 3, 4]], wr = [], sent = []\<rparr>)) =
     Some (Inr [1, 2, 3], \<lparr>rd = [Data [4]], wr = [], sent = []\<rparr>) \<and>
     loop_result [] \<lparr>rd = [Data [1], Fault (Other 5), Data [2, 3, 4]], wr = [], sent = []\<rparr>
       (payload_script 3 (rd \<lparr>rd = [Data [1], Fault (Other 5), Data [2, 3, 4]], wr = [], sent = []\<rparr>)) =
     Some (Inl (Err (Ext (Other 5))), \<lparr>rd = [Data [2, 3, 4]], wr = [], sent = []\<rparr>)"
    by code_simp
  have r1: "readFull 3 [] \<lparr>rd = [Data [1], Fault io_EOF, Data [], Data [2, 3, 4]], wr = [], sent = []\<rparr> =
     Some (Inr [1, 2, 3], \<lparr>rd = [Data [4]], wr = [], sent = []\<rparr>)"
    using a readFull_retries [where plen = 3
      and t = "\<lparr>rd = [Data [1], Fault io_EOF, Data [], Data [2, 3, 4]], wr = [], sent = []\<rparr>",
      THEN conjunct1]
    by simp
  have r2: "readFull 3 [] \<lparr>rd = [Data [1], Fault (Other 5), Data [2, 3, 4]], wr = [], sent = []\<rparr> =
     Some (Inl (Err (Ext (Other 5))), \<lparr>rd = [Data [2, 3, 4]], wr = [], sent = []\<rparr>)"
    using a readFull_retries [where plen = 3
      and t = "\<lparr>rd = [Data [1], Fault (Other 5), Data [2, 3, 4]], wr = [], sent = []\<rparr>",
      THEN conjunct1]
    by simp
  have r3: "readFull 3 [] \<lparr>rd = [], wr = [], sent = []\<rparr> = None"
    using readFull_retries [where plen = 3 and t = "\<lparr>rd = [], wr = [], sent = []\<rparr>",
      THEN conjunct2, THEN conjunct2]
    by simp
  from r1 r2 r3 show ?thesis by simp
qed

section \<open>Streaming packets\<close>

lemma CopyN_bw_grows_aux:
  assumes "CopyN_bw bw idle n t = Some y"
  shows "\<exists>cs. fst (snd y) = bw @ cs \<and> (fst y = None \<longrightarrow> length cs = n)"
  apply (rule CopyN_bw.raw_induct [OF _ assms])
  apply (auto simp: rw_Read_def Let_def split: if_splits list.splits rd_event.splits prod.splits)
  subgoal premises p for f bw n t a aa b x22 x1
    using p(1) [OF p(8)] p(7) by auto
  subgoal premises p for f bw n t a aa b x22 x1
    using p(1) [OF p(6)] p(7) by (auto simp: min_def split: if_splits)
  subgoal premises p for f bw n t a aa b x22 x1
    using p(1) [OF p(6)] p(7) by (auto simp: min_def split: if_splits)
  done

lemma CopyN_bw_grows:
  "CopyN_bw bw idle n t = Some (r, bw', t') \<Longrightarrow>
   \<exists>cs. bw' = bw @ cs \<and> (r = None \<longrightarrow> length cs = n)"
  using CopyN_bw_grows_aux [of bw idle n t "(r, bw', t')"] by simp

lemma readStream_Inr_aux:
  assumes "readStream E bw t = Some y"
  shows "(\<exists>u. fst y = Inr u) \<longrightarrow> bw = []"
  apply (rule readStream.raw_induct [OF _ assms])
  apply (auto split: option.splits sum.splits if_splits prod.splits dest!: CopyN_bw_grows)
  subgoal premises p
    using p(1) [OF p(4)] by simp
  done

lemma readStream_Inr: "readStream E bw t = Some (Inr u, t') \<Longrightarrow> bw = []"
  using readStream_Inr_aux [of E bw t "(Inr u, t')"] by simp

lemma readHeader_Payload: "readHeader E t = Some (Inr h, t') \<Longrightarrow> Payload h = []"
  by (auto simp: readHeader_def split: option.splits sum.splits prod.splits if_splits)

lemma readBody_streaming:
  "readBody E h t = Some (Inr (p, bw), t') \<Longrightarrow> flag h = QuicFlagStreaming E \<Longrightarrow>
   p = h \<and> length bw = unat (len h)"
  by (auto simp: readBody_def split: option.splits prod.splits dest!: CopyN_bw_grows)

lemma readBody_flag:
  "readBody E h t = Some (Inr (p, bw), t') \<Longrightarrow> flag p = flag h"
  by (auto simp: readBody_def split: option.splits prod.splits sum.splits if_splits)

lemma finishPacket_streaming:
  "finishPacket E p bw proto = Some (Inr q, s) \<Longrightarrow> flag p = QuicFlagStreaming E \<Longrightarrow>
   q = p \<and> bw = []"
  by (auto simp: finishPacket_def Close_def split: option.splits prod.splits sum.splits if_splits
      dest: readStream_Inr)

lemma readPacket_streaming:
  assumes "readPacket E proto = Some (Inr p, s)" and "flag p = QuicFlagStreaming E"
  shows "len p = 0 \<and> Payload p = []"
proof -
  from assms(1) obtain h t q bw t' where h: "readHeader E (rw proto) = Some (Inr h, t)"
    and b: "readBody E h t = Some (Inr (q, bw), t')"
    and f: "finishPacket E q bw (proto\<lparr>rw := t'\<rparr>) = Some (Inr p, s)"
    by (auto simp: readPacket_def recvLog_not_Inr recvBlackbox_not_Inr
        split: option.splits prod.splits sum.splits if_splits)
  from f have "flag q = flag p"
    by (auto simp: finishPacket_def Close_def split: option.splits prod.splits sum.splits if_splits)
  with assms(2) have fq: "flag q = QuicFlagStreaming E" by simp
  with readBody_flag [OF b] have fh: "flag h = QuicFlagStreaming E" by simp
  from finishPacket_streaming [OF f fq] have "p = q" and "bw = []" by simp_all
  with readBody_streaming [OF b fh] have "p = h" and "unat (len h) = 0" by simp_all
  with readHeader_Payload [OF h] show ?thesis by (simp add: unat_eq_0)
qed

text \<open>
  C6. The code does not deliver a streaming payload. \<^verbatim>\<open>readPacket\<close> collects the bytes
  of the frames in a \<^verbatim>\<open>bufio.Writer\<close> on an \<^verbatim>\<open>io.Pipe\<close> and flushes the writer at the
  terminating sub-frame; the read end of the pipe reaches the consumer only when
  \<^verbatim>\<open>readPacket\<close> returns, so the flush of one byte or more never returns
  (\<open>readPacket_streaming\<close>: a streaming packet that is returned has no payload at
  all). Here: a streaming Get packet with the one payload byte \<open>07\<close> and the
  terminating sub-frame.
\<close>

theorem streaming_payload_blocks:
  "readPacket env0 (NewQuicProtocol (stream [0x23, 0x41, 0, 1, 7, 0x23, 0x41, 0, 0])) = None"
  by code_simp

lemma streaming_empty_returns:
  "readPacket env0 (NewQuicProtocol (stream [0x23, 0x41, 0, 0, 0x23, 0x41, 0, 0])) =
     Some (Inr \<lparr>cmd = 1, flag = 2, len = 0, Payload = []\<rparr>,
           \<lparr>Log = [], Log_closed = False, info = None, rw = \<lparr>rd = [], wr = [], sent = []\<rparr>\<rparr>)"
  by code_simp

end
